theory Spec2Isabelle
  imports Main "HOL-Library.Word"
begin

section \<open>HealthSecure: the access-control and record-registry contracts\<close>

text \<open>
  A shallow embedding of \<^verbatim>\<open>HealthSecureIdentity.sol\<close>, \<^verbatim>\<open>AccessControl.sol\<close> and
  \<^verbatim>\<open>MedicalRecordRegistry.sol\<close> (Solidity \<^verbatim>\<open>^0.8.20\<close>).

  \<^item> \<^verbatim>\<open>address\<close> is a 160-bit word, \<^verbatim>\<open>uint256\<close> and \<^verbatim>\<open>bytes32\<close> are 256-bit words.
  \<^item> A Solidity \<^verbatim>\<open>mapping\<close> is a total function: a key never written reads as the
    zero value of its type.
  \<^item> A storage array is a list; \<^verbatim>\<open>push\<close> appends at the end.
  \<^item> \<^verbatim>\<open>require(c, msg)\<close> is a branch returning \<open>Inl (Revert msg)\<close>. Arithmetic outside
    \<^verbatim>\<open>unchecked\<close> is checked since 0.8: an overflowing \<open>+\<close> or \<open>++\<close> is the branch
    \<open>Inl PanicOverflow\<close> (panic code 0x11); a write past the end of a memory array is
    \<open>Inl PanicIndex\<close> (panic code 0x32).
  \<^item> \<^verbatim>\<open>block.timestamp\<close> is the argument \<open>now\<close>, \<^verbatim>\<open>msg.sender\<close> the argument \<open>sender\<close>.
  \<^item> Event logs are not contract storage and are left out.
\<close>

type_synonym address = "160 word"
type_synonym uint256 = "256 word"
type_synonym bytes32 = "256 word"

datatype error = Revert string | OwnableUnauthorizedAccount address | PanicOverflow | PanicIndex

text \<open>Checked \<open>a + b\<close> and \<open>x++\<close> on \<^verbatim>\<open>uint256\<close>.\<close>

definition checked_add :: "uint256 \<Rightarrow> uint256 \<Rightarrow> error + uint256" where
  "checked_add a b = (if unat a + unat b < 2 ^ 256 then Inr (a + b) else Inl PanicOverflow)"

definition checked_inc :: "uint256 \<Rightarrow> error + uint256" where
  "checked_inc x = checked_add x 1"

text \<open>
  A function body is run on the storage and stops either with a result or with an error;
  the second component is the storage as the body has written it when it stopped.
  A call that ends in an error is reverted by the virtual machine: \<open>transact\<close> puts the
  storage of the call's start back.
\<close>

definition transact :: "('s \<Rightarrow> (error + 'a) \<times> 's) \<Rightarrow> 's \<Rightarrow> (error + 'a) \<times> 's" where
  "transact body s = (case body s of (Inl e, _) \<Rightarrow> (Inl e, s) | (Inr r, s') \<Rightarrow> (Inr r, s'))"

subsection \<open>HealthSecureIdentity\<close>

datatype Role = NONE | PATIENT | DOCTOR

record Identity =
  identityHash :: bytes32
  role :: Role
  profileCid :: string
  isVerified :: bool
  registeredAt :: uint256
  existsI :: bool

definition zero_identity :: Identity where
  "zero_identity = \<lparr>identityHash = 0, role = NONE, profileCid = [], isVerified = False,
                     registeredAt = 0, existsI = False\<rparr>"

text \<open>
  The contract inherits OpenZeppelin's \<^verbatim>\<open>Ownable\<close> (a library, version 5 by its
  constructor call \<^verbatim>\<open>Ownable(msg.sender)\<close>): of it the storage keeps the owner, set to
  the deployer, and \<^verbatim>\<open>onlyOwner\<close> is the guard that reverts with
  \<^verbatim>\<open>OwnableUnauthorizedAccount(msg.sender)\<close> before the body runs.
\<close>

record id_state =
  identities :: "address \<Rightarrow> Identity"
  hashToAddress :: "bytes32 \<Rightarrow> address"
  healthIdToAddress :: "string \<Rightarrow> address"
  doctorIdToAddress :: "string \<Rightarrow> address"
  owner :: address

definition id_init :: "address \<Rightarrow> id_state" where
  "id_init deployer = \<lparr>identities = (\<lambda>w. zero_identity), hashToAddress = (\<lambda>h. 0),
                        healthIdToAddress = (\<lambda>i. 0), doctorIdToAddress = (\<lambda>i. 0),
                        owner = deployer\<rparr>"

definition registerPatient_body ::
  "uint256 \<Rightarrow> address \<Rightarrow> bytes32 \<Rightarrow> string \<Rightarrow> string \<Rightarrow> id_state \<Rightarrow> (error + unit) \<times> id_state"
where
  "registerPatient_body now sender idHash healthId cid s =
     (if existsI (identities s sender) then (Inl (Revert ''Identity already registered''), s)
      else if hashToAddress s idHash \<noteq> 0 then (Inl (Revert ''Identity hash already used''), s)
      else if healthIdToAddress s healthId \<noteq> 0 then (Inl (Revert ''Health ID already used''), s)
      else
        (let s1 = s\<lparr>identities := (identities s)
                     (sender := \<lparr>identityHash = idHash, role = PATIENT, profileCid = cid,
                                 isVerified = True, registeredAt = now, existsI = True\<rparr>)\<rparr>;
             s2 = s1\<lparr>hashToAddress := (hashToAddress s1)(idHash := sender)\<rparr>;
             s3 = s2\<lparr>healthIdToAddress := (healthIdToAddress s2)(healthId := sender)\<rparr>
         in (Inr (), s3)))"

definition registerPatient ::
  "uint256 \<Rightarrow> address \<Rightarrow> bytes32 \<Rightarrow> string \<Rightarrow> string \<Rightarrow> id_state \<Rightarrow> (error + unit) \<times> id_state"
where
  "registerPatient now sender idHash healthId cid =
     transact (registerPatient_body now sender idHash healthId cid)"

definition registerDoctor_body ::
  "uint256 \<Rightarrow> address \<Rightarrow> bytes32 \<Rightarrow> string \<Rightarrow> string \<Rightarrow> id_state \<Rightarrow> (error + unit) \<times> id_state"
where
  "registerDoctor_body now sender idHash doctorId cid s =
     (if existsI (identities s sender) then (Inl (Revert ''Identity already registered''), s)
      else if hashToAddress s idHash \<noteq> 0 then (Inl (Revert ''Identity hash already used''), s)
      else if doctorIdToAddress s doctorId \<noteq> 0 then (Inl (Revert ''Doctor ID already used''), s)
      else
        (let s1 = s\<lparr>identities := (identities s)
                     (sender := \<lparr>identityHash = idHash, role = DOCTOR, profileCid = cid,
                                 isVerified = False, registeredAt = now, existsI = True\<rparr>)\<rparr>;
             s2 = s1\<lparr>hashToAddress := (hashToAddress s1)(idHash := sender)\<rparr>;
             s3 = s2\<lparr>doctorIdToAddress := (doctorIdToAddress s2)(doctorId := sender)\<rparr>
         in (Inr (), s3)))"

definition registerDoctor ::
  "uint256 \<Rightarrow> address \<Rightarrow> bytes32 \<Rightarrow> string \<Rightarrow> string \<Rightarrow> id_state \<Rightarrow> (error + unit) \<times> id_state"
where
  "registerDoctor now sender idHash doctorId cid =
     transact (registerDoctor_body now sender idHash doctorId cid)"

definition verifyDoctor_body :: "address \<Rightarrow> address \<Rightarrow> id_state \<Rightarrow> (error + unit) \<times> id_state" where
  "verifyDoctor_body sender doctorAddress s =
     (if owner s \<noteq> sender then (Inl (OwnableUnauthorizedAccount sender), s)
      else if \<not> existsI (identities s doctorAddress) then (Inl (Revert ''Identity not found''), s)
      else if role (identities s doctorAddress) \<noteq> DOCTOR then (Inl (Revert ''Not a doctor''), s)
      else if isVerified (identities s doctorAddress) then (Inl (Revert ''Already verified''), s)
      else
        (Inr (), s\<lparr>identities := (identities s)
                    (doctorAddress := (identities s doctorAddress)\<lparr>isVerified := True\<rparr>)\<rparr>))"

definition verifyDoctor :: "address \<Rightarrow> address \<Rightarrow> id_state \<Rightarrow> (error + unit) \<times> id_state" where
  "verifyDoctor sender doctorAddress = transact (verifyDoctor_body sender doctorAddress)"

text \<open>
  The two \<^verbatim>\<open>view\<close> functions that \<^verbatim>\<open>AccessControl\<close> and \<^verbatim>\<open>MedicalRecordRegistry\<close>
  call. Both contracts hold the identity contract's address and read its storage as it is
  when they are called: that storage is the argument \<open>idn\<close> of their operations below.
\<close>

definition isVerifiedDoctor :: "id_state \<Rightarrow> address \<Rightarrow> bool" where
  "isVerifiedDoctor s wallet =
     (existsI (identities s wallet) \<and> role (identities s wallet) = DOCTOR \<and>
      isVerified (identities s wallet))"

definition isPatient :: "id_state \<Rightarrow> address \<Rightarrow> bool" where
  "isPatient s wallet =
     (existsI (identities s wallet) \<and> role (identities s wallet) = PATIENT)"

subsection \<open>AccessControl\<close>

record AccessGrant =
  isGranted :: bool
  grantedAt :: uint256
  expiresAt :: uint256
  existsG :: bool

text \<open>The zero value of the struct: what \<^verbatim>\<open>accessGrants[p][d]\<close> reads before any write.\<close>

definition zero_grant :: AccessGrant where
  "zero_grant = \<lparr>isGranted = False, grantedAt = 0, expiresAt = 0, existsG = False\<rparr>"

record ac_state =
  accessGrants :: "address \<Rightarrow> address \<Rightarrow> AccessGrant"
  patientDoctors :: "address \<Rightarrow> address list"
  doctorPatients :: "address \<Rightarrow> address list"

definition ac_init :: ac_state where
  "ac_init = \<lparr>accessGrants = (\<lambda>p d. zero_grant),
              patientDoctors = (\<lambda>p. []),
              doctorPatients = (\<lambda>d. [])\<rparr>"

definition grantAccess_body ::
  "id_state \<Rightarrow> uint256 \<Rightarrow> address \<Rightarrow> address \<Rightarrow> uint256 \<Rightarrow> ac_state \<Rightarrow> (error + unit) \<times> ac_state"
where
  "grantAccess_body idn now sender doctorAddress durationSeconds s =
     (if \<not> isPatient idn sender then (Inl (Revert ''Only patients can grant access''), s)
      else if \<not> isVerifiedDoctor idn doctorAddress
        then (Inl (Revert ''Target is not a verified doctor''), s)
      else
        (case (if durationSeconds > 0 then checked_add now durationSeconds else Inr 0) of
           Inl e \<Rightarrow> (Inl e, s)
         | Inr expires \<Rightarrow>
             (let isNewGrant = \<not> existsG (accessGrants s sender doctorAddress);
                  s1 = s\<lparr>accessGrants := (accessGrants s)
                         (sender := (accessGrants s sender)
                            (doctorAddress :=
                               \<lparr>isGranted = True, grantedAt = now,
                                expiresAt = expires, existsG = True\<rparr>))\<rparr>;
                  s2 = (if isNewGrant
                        then (let s' = s1\<lparr>patientDoctors := (patientDoctors s1)
                                          (sender := patientDoctors s1 sender @ [doctorAddress])\<rparr>
                              in s'\<lparr>doctorPatients := (doctorPatients s')
                                      (doctorAddress := doctorPatients s' doctorAddress @ [sender])\<rparr>)
                        else s1)
              in (Inr (), s2))))"

definition grantAccess ::
  "id_state \<Rightarrow> uint256 \<Rightarrow> address \<Rightarrow> address \<Rightarrow> uint256 \<Rightarrow> ac_state \<Rightarrow> (error + unit) \<times> ac_state"
where
  "grantAccess idn now sender doctorAddress durationSeconds =
     transact (grantAccess_body idn now sender doctorAddress durationSeconds)"

definition revokeAccess_body ::
  "id_state \<Rightarrow> address \<Rightarrow> address \<Rightarrow> ac_state \<Rightarrow> (error + unit) \<times> ac_state"
where
  "revokeAccess_body idn sender doctorAddress s =
     (if \<not> isPatient idn sender then (Inl (Revert ''Only patients can revoke access''), s)
      else if \<not> existsG (accessGrants s sender doctorAddress)
        then (Inl (Revert ''No access grant found''), s)
      else
        (Inr (), s\<lparr>accessGrants := (accessGrants s)
                    (sender := (accessGrants s sender)
                       (doctorAddress :=
                          (accessGrants s sender doctorAddress)\<lparr>isGranted := False\<rparr>))\<rparr>))"

definition revokeAccess ::
  "id_state \<Rightarrow> address \<Rightarrow> address \<Rightarrow> ac_state \<Rightarrow> (error + unit) \<times> ac_state"
where
  "revokeAccess idn sender doctorAddress = transact (revokeAccess_body idn sender doctorAddress)"

text \<open>The \<^verbatim>\<open>view\<close> functions read the storage and return a value only.\<close>

definition hasAccess :: "ac_state \<Rightarrow> uint256 \<Rightarrow> address \<Rightarrow> address \<Rightarrow> bool" where
  "hasAccess s now patientAddress doctorAddress =
     (let grant = accessGrants s patientAddress doctorAddress in
      if \<not> existsG grant \<or> \<not> isGranted grant then False
      else if expiresAt grant > 0 \<and> now > expiresAt grant then False
      else True)"

definition getAccessGrant ::
  "ac_state \<Rightarrow> uint256 \<Rightarrow> address \<Rightarrow> address \<Rightarrow> bool \<times> uint256 \<times> uint256 \<times> bool"
where
  "getAccessGrant s now patientAddress doctorAddress =
     (let grant = accessGrants s patientAddress doctorAddress;
          expired = (expiresAt grant > 0 \<and> now > expiresAt grant)
      in (isGranted grant \<and> \<not> expired, grantedAt grant, expiresAt grant, expired))"

definition getPatientDoctors :: "ac_state \<Rightarrow> address \<Rightarrow> address list" where
  "getPatientDoctors s patientAddress = patientDoctors s patientAddress"

definition getDoctorPatients :: "ac_state \<Rightarrow> address \<Rightarrow> address list" where
  "getDoctorPatients s doctorAddress = doctorPatients s doctorAddress"

text \<open>
  The loop of \<^verbatim>\<open>getActivePatientCount\<close> visits the array from index 0 upwards; the
  recursion follows the list. The index \<^verbatim>\<open>i\<close> stays below \<^verbatim>\<open>patients.length\<close>, itself
  a \<^verbatim>\<open>uint256\<close>, so \<^verbatim>\<open>i++\<close> cannot overflow; \<^verbatim>\<open>activeCount++\<close> is checked.
\<close>

fun countActive ::
  "(address \<Rightarrow> address \<Rightarrow> AccessGrant) \<Rightarrow> uint256 \<Rightarrow> address \<Rightarrow> address list \<Rightarrow> uint256
     \<Rightarrow> error + uint256"
where
  "countActive grants now doctorAddress [] activeCount = Inr activeCount"
| "countActive grants now doctorAddress (p # ps) activeCount =
     (let grant = grants p doctorAddress in
      if isGranted grant then
        (if expiresAt grant = 0 \<or> now \<le> expiresAt grant then
           (case checked_inc activeCount of
              Inl e \<Rightarrow> Inl e
            | Inr c \<Rightarrow> countActive grants now doctorAddress ps c)
         else countActive grants now doctorAddress ps activeCount)
      else countActive grants now doctorAddress ps activeCount)"

definition getActivePatientCount :: "ac_state \<Rightarrow> uint256 \<Rightarrow> address \<Rightarrow> error + uint256" where
  "getActivePatientCount s now doctorAddress =
     countActive (accessGrants s) now doctorAddress (doctorPatients s doctorAddress) 0"

text \<open>
  The states the contract can be in: the state after deployment, and every state a
  successful \<^verbatim>\<open>grantAccess\<close> or \<^verbatim>\<open>revokeAccess\<close> leads to, whoever calls, at whatever
  time and whatever the storage of the identity contract is then.
\<close>

inductive ac_reachable :: "ac_state \<Rightarrow> bool" where
  ac_deployed: "ac_reachable ac_init"
| ac_grant: "ac_reachable s \<Longrightarrow>
     grantAccess idn now sender doctorAddress durationSeconds s = (Inr (), s') \<Longrightarrow>
     ac_reachable s'"
| ac_revoke: "ac_reachable s \<Longrightarrow>
     revokeAccess idn sender doctorAddress s = (Inr (), s') \<Longrightarrow>
     ac_reachable s'"

subsection \<open>MedicalRecordRegistry\<close>

datatype RecordType =
  PRESCRIPTION | LAB_REPORT | DIAGNOSIS | IMAGING | PROCEDURE | CONSULTATION | FOLLOWUP

record RecordEntry =
  recordHash :: bytes32
  ipfsCid :: string
  patient :: address
  doctor :: address
  recordType :: RecordType
  isVisible :: bool
  createdAt :: uint256
  existsR :: bool

definition zero_record :: RecordEntry where
  "zero_record = \<lparr>recordHash = 0, ipfsCid = [], patient = 0, doctor = 0,
                   recordType = PRESCRIPTION, isVisible = False, createdAt = 0,
                   existsR = False\<rparr>"

record reg_state =
  records :: "uint256 \<Rightarrow> RecordEntry"
  recordCount :: uint256
  patientRecords :: "address \<Rightarrow> uint256 list"
  doctorRecords :: "address \<Rightarrow> uint256 list"

definition reg_init :: reg_state where
  "reg_init = \<lparr>records = (\<lambda>i. zero_record), recordCount = 0,
               patientRecords = (\<lambda>p. []), doctorRecords = (\<lambda>d. [])\<rparr>"

definition createRecord_body ::
  "id_state \<Rightarrow> uint256 \<Rightarrow> address \<Rightarrow> address \<Rightarrow> bytes32 \<Rightarrow> string \<Rightarrow> RecordType \<Rightarrow> reg_state
     \<Rightarrow> (error + uint256) \<times> reg_state"
where
  "createRecord_body idn now sender patientAddress rHash cid rType s =
     (if \<not> isVerifiedDoctor idn sender
        then (Inl (Revert ''Only verified doctors can create records''), s)
      else if \<not> isPatient idn patientAddress then (Inl (Revert ''Patient not registered''), s)
      else
        (let recordId = recordCount s;
             s1 = s\<lparr>records := (records s)
                    (recordId := \<lparr>recordHash = rHash, ipfsCid = cid, patient = patientAddress,
                                  doctor = sender, recordType = rType, isVisible = True,
                                  createdAt = now, existsR = True\<rparr>)\<rparr>;
             s2 = s1\<lparr>patientRecords := (patientRecords s1)
                     (patientAddress := patientRecords s1 patientAddress @ [recordId])\<rparr>;
             s3 = s2\<lparr>doctorRecords := (doctorRecords s2)
                     (sender := doctorRecords s2 sender @ [recordId])\<rparr>
         in (case checked_inc (recordCount s3) of
               Inl e \<Rightarrow> (Inl e, s3)
             | Inr c \<Rightarrow> (Inr recordId, s3\<lparr>recordCount := c\<rparr>))))"

definition createRecord ::
  "id_state \<Rightarrow> uint256 \<Rightarrow> address \<Rightarrow> address \<Rightarrow> bytes32 \<Rightarrow> string \<Rightarrow> RecordType \<Rightarrow> reg_state
     \<Rightarrow> (error + uint256) \<times> reg_state"
where
  "createRecord idn now sender patientAddress rHash cid rType =
     transact (createRecord_body idn now sender patientAddress rHash cid rType)"

definition toggleVisibility_body ::
  "address \<Rightarrow> uint256 \<Rightarrow> reg_state \<Rightarrow> (error + unit) \<times> reg_state"
where
  "toggleVisibility_body sender recordId s =
     (if \<not> existsR (records s recordId) then (Inl (Revert ''Record not found''), s)
      else if patient (records s recordId) \<noteq> sender
        then (Inl (Revert ''Only patient can toggle visibility''), s)
      else
        (Inr (), s\<lparr>records := (records s)
                    (recordId := (records s recordId)
                       \<lparr>isVisible := \<not> isVisible (records s recordId)\<rparr>)\<rparr>))"

definition toggleVisibility ::
  "address \<Rightarrow> uint256 \<Rightarrow> reg_state \<Rightarrow> (error + unit) \<times> reg_state"
where
  "toggleVisibility sender recordId = transact (toggleVisibility_body sender recordId)"

definition getRecord ::
  "reg_state \<Rightarrow> address \<Rightarrow> uint256
     \<Rightarrow> error + (bytes32 \<times> string \<times> address \<times> address \<times> RecordType \<times> bool \<times> uint256)"
where
  "getRecord s sender recordId =
     (if \<not> existsR (records s recordId) then Inl (Revert ''Record not found'')
      else
        (let record = records s recordId in
         if \<not> (patient record = sender \<or> doctor record = sender \<or> isVisible record)
           then Inl (Revert ''Access denied'')
         else Inr (recordHash record, ipfsCid record, patient record, doctor record,
                   recordType record, isVisible record, createdAt record)))"

definition getPatientRecordIds :: "reg_state \<Rightarrow> address \<Rightarrow> uint256 list" where
  "getPatientRecordIds s p = patientRecords s p"

text \<open>
  \<^verbatim>\<open>getVisiblePatientRecords\<close> runs two loops over the patient's id array: the first
  counts the visible records, the second writes their ids into a fresh memory array of
  that length (zero-initialised) at the positions \<^verbatim>\<open>index\<close> = 0, 1, ...  As above the
  recursion follows the array; \<^verbatim>\<open>visibleCount++\<close> and \<^verbatim>\<open>index++\<close> are checked, and
  so is the write \<^verbatim>\<open>visibleRecords[index] = ...\<close>.
\<close>

fun countVisible :: "(uint256 \<Rightarrow> RecordEntry) \<Rightarrow> uint256 list \<Rightarrow> uint256 \<Rightarrow> error + uint256" where
  "countVisible recs [] visibleCount = Inr visibleCount"
| "countVisible recs (r # rs) visibleCount =
     (if isVisible (recs r) then
        (case checked_inc visibleCount of
           Inl e \<Rightarrow> Inl e
         | Inr c \<Rightarrow> countVisible recs rs c)
      else countVisible recs rs visibleCount)"

fun fillVisible ::
  "(uint256 \<Rightarrow> RecordEntry) \<Rightarrow> uint256 list \<Rightarrow> uint256 list \<Rightarrow> uint256 \<Rightarrow> error + uint256 list"
where
  "fillVisible recs [] visibleRecords index = Inr visibleRecords"
| "fillVisible recs (r # rs) visibleRecords index =
     (if isVisible (recs r) then
        (if unat index < length visibleRecords then
           (case checked_inc index of
              Inl e \<Rightarrow> Inl e
            | Inr index' \<Rightarrow> fillVisible recs rs (visibleRecords[unat index := r]) index')
         else Inl PanicIndex)
      else fillVisible recs rs visibleRecords index)"

definition getVisiblePatientRecords :: "reg_state \<Rightarrow> address \<Rightarrow> error + uint256 list" where
  "getVisiblePatientRecords s p =
     (let allRecords = patientRecords s p in
      case countVisible (records s) allRecords 0 of
        Inl e \<Rightarrow> Inl e
      | Inr visibleCount \<Rightarrow>
          fillVisible (records s) allRecords (replicate (unat visibleCount) 0) 0)"

text \<open>
  A call to the registry from outside, and a run of such calls from a state: each call
  comes with the identity contract's storage and the block time of its transaction. The
  run collects the ids that the successful \<^verbatim>\<open>createRecord\<close> calls returned, in order.
\<close>

datatype reg_call =
  CreateRecord id_state uint256 address address bytes32 string RecordType
| ToggleVisibility address uint256

fun run_calls :: "reg_state \<Rightarrow> reg_call list \<Rightarrow> uint256 list \<times> reg_state" where
  "run_calls s [] = ([], s)"
| "run_calls s (CreateRecord idn now sender p h cid t # cs) =
     (case createRecord idn now sender p h cid t s of
        (Inl e, s') \<Rightarrow> run_calls s' cs
      | (Inr recordId, s') \<Rightarrow> (let (ids, s'') = run_calls s' cs in (recordId # ids, s'')))"
| "run_calls s (ToggleVisibility sender recordId # cs) =
     run_calls (snd (toggleVisibility sender recordId s)) cs"


subsection \<open>The states the specification describes after a grant and after a revocation\<close>

text \<open>
  These two states are written from the specification's words, to be compared with what
  \<open>grantAccess\<close> and \<open>revokeAccess\<close> compute: the grant record overwritten with
  \<open>granted = true\<close>, the pair appended to both lists only when no record existed; and
  the \<open>granted\<close> flag cleared, nothing else touched.
\<close>

definition granted_state :: "uint256 \<Rightarrow> address \<Rightarrow> address \<Rightarrow> uint256 \<Rightarrow> ac_state \<Rightarrow> ac_state" where
  "granted_state now p d n s =
     \<lparr>accessGrants = (accessGrants s)
        (p := (accessGrants s p)
           (d := \<lparr>isGranted = True, grantedAt = now,
                  expiresAt = (if 0 < n then now + n else 0), existsG = True\<rparr>)),
      patientDoctors = (if existsG (accessGrants s p d) then patientDoctors s
                        else (patientDoctors s)(p := patientDoctors s p @ [d])),
      doctorPatients = (if existsG (accessGrants s p d) then doctorPatients s
                        else (doctorPatients s)(d := doctorPatients s d @ [p]))\<rparr>"

definition revoked_state :: "address \<Rightarrow> address \<Rightarrow> ac_state \<Rightarrow> ac_state" where
  "revoked_state p d s =
     s\<lparr>accessGrants := (accessGrants s)
         (p := (accessGrants s p) (d := (accessGrants s p d)\<lparr>isGranted := False\<rparr>))\<rparr>"

text \<open>
  Likewise for the registry: the state the specification describes after a successful
  \<open>createRecord\<close> (the record stored visible under the current count, its id appended
  to both index lists, the count incremented) and after a successful \<open>toggleVisibility\<close>.
\<close>

definition created_state ::
  "uint256 \<Rightarrow> address \<Rightarrow> address \<Rightarrow> bytes32 \<Rightarrow> string \<Rightarrow> RecordType \<Rightarrow> reg_state \<Rightarrow> reg_state"
where
  "created_state now c p h cid t s =
     \<lparr>records = (records s)
        (recordCount s := \<lparr>recordHash = h, ipfsCid = cid, patient = p, doctor = c,
                           recordType = t, isVisible = True, createdAt = now,
                           existsR = True\<rparr>),
      recordCount = recordCount s + 1,
      patientRecords = (patientRecords s)(p := patientRecords s p @ [recordCount s]),
      doctorRecords = (doctorRecords s)(c := doctorRecords s c @ [recordCount s])\<rparr>"

definition toggled_state :: "uint256 \<Rightarrow> reg_state \<Rightarrow> reg_state" where
  "toggled_state r s =
     s\<lparr>records := (records s)
         (r := (records s r)\<lparr>isVisible := \<not> isVisible (records s r)\<rparr>)\<rparr>"

subsection \<open>An identity contract for the examples\<close>

text \<open>
  Address 9 deploys the identity contract; address 1 registers as a patient, addresses 2
  and 3 register as doctors and the owner verifies both.
\<close>

definition ex_identity :: id_state where
  "ex_identity =
     snd (verifyDoctor 9 3
       (snd (verifyDoctor 9 2
         (snd (registerDoctor 30 3 103 ''DOC-0002'' ''QmC''
           (snd (registerDoctor 20 2 102 ''DOC-0001'' ''QmB''
             (snd (registerPatient 10 1 101 ''HID-0001'' ''QmA'' (id_init 9))))))))))"

section \<open>The example identity contract\<close>

lemma ex_identities:
  "identities ex_identity =
     (\<lambda>w. zero_identity)
       (1 := \<lparr>identityHash = 101, role = PATIENT, profileCid = ''QmA'', isVerified = True,
               registeredAt = 10, existsI = True\<rparr>,
        2 := \<lparr>identityHash = 102, role = DOCTOR, profileCid = ''QmB'', isVerified = True,
               registeredAt = 20, existsI = True\<rparr>,
        3 := \<lparr>identityHash = 103, role = DOCTOR, profileCid = ''QmC'', isVerified = True,
               registeredAt = 30, existsI = True\<rparr>)"
  by (simp add: ex_identity_def verifyDoctor_def verifyDoctor_body_def registerDoctor_def
      registerDoctor_body_def registerPatient_def registerPatient_body_def transact_def
      id_init_def zero_identity_def Let_def fun_upd_twist)

lemma ex_isPatient: "isPatient ex_identity a \<longleftrightarrow> a = 1"
  by (simp add: isPatient_def ex_identities zero_identity_def)

lemma ex_isVerifiedDoctor: "isVerifiedDoctor ex_identity a \<longleftrightarrow> a = 2 \<or> a = 3"
  by (auto simp: isVerifiedDoctor_def ex_identities zero_identity_def)

text \<open>No address is a patient and a verified doctor at once, whatever the storage.\<close>

lemma isPatient_not_doctor: "\<not> (isPatient s a \<and> isVerifiedDoctor s a)"
  by (simp add: isPatient_def isVerifiedDoctor_def)

section \<open>Arithmetic and transactions\<close>

lemma transact_Inl_state: "fst (transact body s) = Inl e \<Longrightarrow> snd (transact body s) = s"
  by (auto simp: transact_def split: prod.splits sum.splits)

lemma transact_Inr_iff:
  "transact body s = (Inr r, t) \<longleftrightarrow> body s = (Inr r, t)"
  by (auto simp: transact_def split: prod.splits sum.splits)

lemma transact_fst: "fst (transact body s) = fst (body s)"
  by (auto simp: transact_def split: prod.splits sum.splits)

lemma unat_max_uint256: "unat (- 1 :: uint256) = 2 ^ 256 - 1"
  by (simp add: unsigned_minus_1_eq_mask mask_eq_exp_minus_1)

lemma checked_add_unat:
  "checked_add a b = Inr c \<Longrightarrow> unat c = unat a + unat b"
  by (auto simp: checked_add_def unat_word_ariths split: if_splits)

lemma checked_inc_Inr_iff:
  "checked_inc x = Inr c \<longleftrightarrow> x \<noteq> - 1 \<and> c = x + 1"
proof -
  have "unat x < 2 ^ 256" using unsigned_less [of x] by simp
  moreover have "x = - 1 \<longleftrightarrow> unat x = 2 ^ 256 - 1"
    using unat_max_uint256 by (metis unsigned_word_eqI)
  ultimately show ?thesis
    by (auto simp: checked_inc_def checked_add_def)
qed

lemma checked_inc_max: "checked_inc (- 1) = Inl PanicOverflow"
  by (simp add: checked_add_def checked_inc_def unat_max_uint256)

lemma checked_inc_Inl: "checked_inc x = Inl e \<Longrightarrow> x = - 1 \<and> e = PanicOverflow"
  using checked_inc_Inr_iff [of x "x + 1"]
  by (cases "x = - 1") (auto simp: checked_inc_max)

lemma checked_inc_unat: "checked_inc x = Inr c \<Longrightarrow> unat c = Suc (unat x)"
  by (auto simp: checked_inc_def dest: checked_add_unat)

lemma checked_add_pos:
  assumes "checked_add a b = Inr c" "0 < b"
  shows "0 < c" "a < c"
proof -
  have u: "unat c = unat a + unat b" using assms(1) by (rule checked_add_unat)
  have "0 < unat b" using assms(2) by (simp add: unat_gt_0)
  with u show "0 < c" "a < c" by (simp_all add: word_less_nat_alt)
qed

subsection \<open>grantAccess\<close>

lemma grantAccess_not_patient:
  "\<not> isPatient idn p \<Longrightarrow>
   grantAccess_body idn now p d n s = (Inl (Revert ''Only patients can grant access''), s)"
  by (simp add: grantAccess_body_def)

lemma grantAccess_not_doctor:
  "isPatient idn p \<Longrightarrow> \<not> isVerifiedDoctor idn d \<Longrightarrow>
   grantAccess_body idn now p d n s = (Inl (Revert ''Target is not a verified doctor''), s)"
  by (simp add: grantAccess_body_def)

lemma grantAccess_body_overflow:
  "isPatient idn p \<Longrightarrow> isVerifiedDoctor idn d \<Longrightarrow> 0 < n \<Longrightarrow> \<not> unat now + unat n < 2 ^ 256 \<Longrightarrow>
   grantAccess_body idn now p d n s = (Inl PanicOverflow, s)"
  by (simp add: grantAccess_body_def checked_add_def)

lemma grantAccess_body_ok:
  "isPatient idn p \<Longrightarrow> isVerifiedDoctor idn d \<Longrightarrow> n = 0 \<or> unat now + unat n < 2 ^ 256 \<Longrightarrow>
   grantAccess_body idn now p d n s = (Inr (), granted_state now p d n s)"
  by (auto simp: grantAccess_body_def checked_add_def granted_state_def Let_def)

lemma grantAccess_body_Inr:
  assumes "grantAccess_body idn now p d n s = (Inr (), s')"
  shows "isPatient idn p \<and> isVerifiedDoctor idn d \<and> (n = 0 \<or> unat now + unat n < 2 ^ 256)
         \<and> s' = granted_state now p d n s"
proof -
  have a: "isPatient idn p" "isVerifiedDoctor idn d"
    using assms by (auto simp: grantAccess_body_def split: if_splits)
  have b: "n = 0 \<or> unat now + unat n < 2 ^ 256"
    using assms a by (auto simp: grantAccess_body_def checked_add_def word_greater_zero_iff split: if_splits)
  show ?thesis using a b assms grantAccess_body_ok [OF a b, where s = s] by simp
qed

lemma grantAccess_body_Inl:
  "fst (grantAccess_body idn now p d n s) = Inl e \<Longrightarrow> snd (grantAccess_body idn now p d n s) = s"
  by (auto simp: grantAccess_body_def Let_def split: if_splits sum.splits)


lemma grantAccess_Inr:
  "grantAccess idn now p d n s = (Inr (), s') \<longleftrightarrow>
     isPatient idn p \<and> isVerifiedDoctor idn d \<and> (n = 0 \<or> unat now + unat n < 2 ^ 256)
       \<and> s' = granted_state now p d n s"
  unfolding grantAccess_def transact_Inr_iff
  using grantAccess_body_Inr [of idn now p d n s s'] grantAccess_body_ok [of idn p d n now s]
  by auto

subsection \<open>revokeAccess\<close>

lemma revokeAccess_body_Inl:
  "fst (revokeAccess_body idn p d s) = Inl e \<Longrightarrow> snd (revokeAccess_body idn p d s) = s"
  by (auto simp: revokeAccess_body_def split: if_splits)

lemma revokeAccess_Inr:
  "revokeAccess idn p d s = (Inr (), s') \<longleftrightarrow>
     isPatient idn p \<and> existsG (accessGrants s p d) \<and> s' = revoked_state p d s"
  unfolding revokeAccess_def transact_Inr_iff
  by (auto simp: revokeAccess_body_def revoked_state_def)

lemma revokeAccess_not_found:
  "isPatient idn p \<Longrightarrow> \<not> existsG (accessGrants s p d) \<Longrightarrow>
   revokeAccess idn p d s = (Inl (Revert ''No access grant found''), s)"
  by (simp add: revokeAccess_def revokeAccess_body_def transact_def)

lemma revokeAccess_not_patient:
  "\<not> isPatient idn p \<Longrightarrow>
   revokeAccess idn p d s = (Inl (Revert ''Only patients can revoke access''), s)"
  by (simp add: revokeAccess_def revokeAccess_body_def transact_def)

lemma revoked_state_idem:
  assumes "\<not> isGranted (accessGrants s p d)"
  shows "revoked_state p d s = s"
proof -
  have "(accessGrants s p d)\<lparr>isGranted := False\<rparr> = accessGrants s p d"
    using assms by (cases "accessGrants s p d") simp
  then show ?thesis by (simp add: revoked_state_def)
qed

subsection \<open>Invariants of the reachable states\<close>

lemma ac_reachable_inv:
  "ac_reachable s \<Longrightarrow>
     (\<forall>p d. (d \<in> set (patientDoctors s p)) = existsG (accessGrants s p d)) \<and>
     (\<forall>p d. (p \<in> set (doctorPatients s d)) = existsG (accessGrants s p d)) \<and>
     (\<forall>p. distinct (patientDoctors s p)) \<and>
     (\<forall>d. distinct (doctorPatients s d)) \<and>
     (\<forall>p d. \<not> existsG (accessGrants s p d) \<longrightarrow> accessGrants s p d = zero_grant)"
proof (induction rule: ac_reachable.induct)
  case ac_deployed
  show ?case by (simp add: ac_init_def zero_grant_def)
next
  case (ac_grant s idn now sender doctorAddress durationSeconds s')
  from ac_grant.hyps(2) have s': "s' = granted_state now sender doctorAddress durationSeconds s"
    by (simp add: grantAccess_Inr)
  from ac_grant.IH show ?case
    unfolding s' by (auto simp: granted_state_def)
next
  case (ac_revoke s idn sender doctorAddress s')
  from ac_revoke.hyps(2) have s': "s' = revoked_state sender doctorAddress s"
    and ex: "existsG (accessGrants s sender doctorAddress)"
    by (simp_all add: revokeAccess_Inr)
  from ac_revoke.IH ex show ?case
    unfolding s' by (auto simp: revoked_state_def)
qed

lemma ac_reachable_distinct:
  "ac_reachable s \<Longrightarrow> distinct (patientDoctors s p) \<and> distinct (doctorPatients s d)"
  using ac_reachable_inv [of s] by blast

lemma ac_reachable_mem:
  "ac_reachable s \<Longrightarrow> (p \<in> set (doctorPatients s d)) = existsG (accessGrants s p d)"
  using ac_reachable_inv [of s] by blast

lemma ac_reachable_zero:
  "ac_reachable s \<Longrightarrow> \<not> existsG (accessGrants s p d) \<Longrightarrow> accessGrants s p d = zero_grant"
  using ac_reachable_inv [of s] by blast

subsection \<open>The example call: patient 1 grants doctor 2 an hour at time 100\<close>

lemma ex_grant:
  "grantAccess ex_identity 100 1 2 3600 ac_init
     = (Inr (), granted_state 100 1 2 3600 ac_init)"
  by (simp add: grantAccess_Inr ex_isPatient ex_isVerifiedDoctor)

lemma ex_grant_snd:
  "snd (grantAccess ex_identity 100 1 2 3600 ac_init) = granted_state 100 1 2 3600 ac_init"
  by (simp add: ex_grant)

lemma ex_grant_reachable: "ac_reachable (granted_state 100 1 2 3600 ac_init)"
  by (rule ac_grant [OF ac_deployed ex_grant])

lemma ex_grant_record:
  "accessGrants (granted_state 100 1 2 3600 ac_init) 1 2
     = \<lparr>isGranted = True, grantedAt = 100, expiresAt = 3700, existsG = True\<rparr>"
  by (simp add: granted_state_def)

lemma ex_revoke:
  "revokeAccess ex_identity 1 2 (granted_state 100 1 2 3600 ac_init)
     = (Inr (), revoked_state 1 2 (granted_state 100 1 2 3600 ac_init))"
  by (simp add: revokeAccess_Inr ex_grant_record ex_isPatient ex_isVerifiedDoctor)

lemma ex_revoked_record:
  "accessGrants (revoked_state 1 2 (granted_state 100 1 2 3600 ac_init)) 1 2
     = \<lparr>isGranted = False, grantedAt = 100, expiresAt = 3700, existsG = True\<rparr>"
  by (simp add: revoked_state_def ex_grant_record)

section \<open>AccessControl: the claims\<close>

lemma hasAccess_iff:
  "hasAccess s now p d \<longleftrightarrow>
     existsG (accessGrants s p d) \<and> isGranted (accessGrants s p d) \<and>
     \<not> (0 < expiresAt (accessGrants s p d) \<and> expiresAt (accessGrants s p d) < now)"
  by (auto simp: hasAccess_def Let_def)

lemma hasAccess_after_grant:
  assumes "grantAccess idn t p d n s = (Inr (), s')" "0 < n"
  shows "hasAccess s' t' p d \<longleftrightarrow> unat t' \<le> unat t + unat n"
proof -
  from assms have ok: "unat t + unat n < 2 ^ 256" and s': "s' = granted_state t p d n s"
    by (auto simp: grantAccess_Inr)
  have c: "checked_add t n = Inr (t + n)" using ok by (simp add: checked_add_def)
  have u: "unat (t + n) = unat t + unat n" using c by (rule checked_add_unat)
  have pos: "0 < t + n" using c assms(2) by (rule checked_add_pos)
  have g: "accessGrants s' p d =
        \<lparr>isGranted = True, grantedAt = t, expiresAt = t + n, existsG = True\<rparr>"
    using assms(2) by (simp add: s' granted_state_def)
  show ?thesis
    using pos u by (simp add: hasAccess_iff g word_less_nat_alt not_less)
qed

text \<open>
  Claim C1. \<open>hasAccess\<close> is false when no grant record exists for the pair, false when
  the stored \<open>isGranted\<close> flag is false, false when \<open>expiresAt > 0\<close> and
  \<open>now > expiresAt\<close>, and true otherwise; at \<open>now = expiresAt\<close> the grant is still
  active. \<open>hasAccess\<close> is a function of the storage and the time that returns a boolean
  only, so it writes nothing; after a successful \<open>grantAccess\<close> with a positive duration
  \<open>n\<close> at time \<open>t\<close> the same storage answers true up to time \<open>t + n\<close> and false after it.
\<close>

theorem hasAccess_lazy_expiry:
  "(\<not> existsG (accessGrants s p d) \<longrightarrow> \<not> hasAccess s now p d) \<and>
   (\<not> isGranted (accessGrants s p d) \<longrightarrow> \<not> hasAccess s now p d) \<and>
   (0 < expiresAt (accessGrants s p d) \<and> expiresAt (accessGrants s p d) < now
       \<longrightarrow> \<not> hasAccess s now p d) \<and>
   (existsG (accessGrants s p d) \<and> isGranted (accessGrants s p d) \<and>
    \<not> (0 < expiresAt (accessGrants s p d) \<and> expiresAt (accessGrants s p d) < now)
       \<longrightarrow> hasAccess s now p d) \<and>
   (existsG (accessGrants s p d) \<and> isGranted (accessGrants s p d) \<and>
    now = expiresAt (accessGrants s p d) \<longrightarrow> hasAccess s now p d) \<and>
   (grantAccess idn t p d n s = (Inr (), s') \<and> 0 < n
       \<longrightarrow> (\<forall>t'. hasAccess s' t' p d \<longleftrightarrow> unat t' \<le> unat t + unat n))"
  using hasAccess_after_grant [of idn t p d n s s']
  by (auto simp: hasAccess_iff)

theorem hasAccess_lazy_expiry_witness:
  "grantAccess ex_identity 100 1 2 3600 ac_init
      = (Inr (), granted_state 100 1 2 3600 ac_init) \<and>
   (0 :: uint256) < 3600 \<and>
   accessGrants (granted_state 100 1 2 3600 ac_init) 1 2
     = \<lparr>isGranted = True, grantedAt = 100, expiresAt = 3700, existsG = True\<rparr> \<and>
   hasAccess (granted_state 100 1 2 3600 ac_init) 100 1 2 \<and>
   hasAccess (granted_state 100 1 2 3600 ac_init) 3700 1 2 \<and>
   \<not> hasAccess (granted_state 100 1 2 3600 ac_init) 3701 1 2 \<and>
   \<not> existsG (accessGrants ac_init 1 2) \<and>
   \<not> hasAccess ac_init 100 1 2 \<and>
   \<not> isGranted (accessGrants (revoked_state 1 2 (granted_state 100 1 2 3600 ac_init)) 1 2) \<and>
   \<not> hasAccess (revoked_state 1 2 (granted_state 100 1 2 3600 ac_init)) 100 1 2"
proof -
  let ?s = "granted_state 100 1 2 3600 ac_init"
  have e: "\<not> existsG (accessGrants ac_init 1 2)"
    by (simp add: ac_init_def zero_grant_def)
  have a: "hasAccess ?s 100 1 2"
    using hasAccess_lazy_expiry [of ac_init 1 2 100 ex_identity 100 3600 ?s] ex_grant
    by simp
  have b: "hasAccess ?s 3700 1 2"
    using hasAccess_lazy_expiry [of ?s 1 2 3700] by (simp add: ex_grant_record)
  have c: "\<not> hasAccess ?s 3701 1 2"
    using hasAccess_lazy_expiry [of ?s 1 2 3701] by (simp add: ex_grant_record)
  have d: "\<not> hasAccess ac_init 100 1 2"
    using hasAccess_lazy_expiry [of ac_init 1 2 100] e by simp
  have f: "\<not> hasAccess (revoked_state 1 2 ?s) 100 1 2"
    using hasAccess_lazy_expiry [of "revoked_state 1 2 ?s" 1 2 100]
    by (simp add: ex_revoked_record)
  show ?thesis using a b c d e f ex_grant by (simp add: ex_grant_record ex_revoked_record)
qed

text \<open>
  Claim C3 says that \<open>grantAccess\<close> sets the grant record for every duration. The sum
  \<^verbatim>\<open>block.timestamp + durationSeconds\<close> is checked: at time 1700000000 the registered
  patient 1 granting the verified doctor 2 the duration \<open>2^256 - 1\<close> (written \<open>- 1\<close>)
  is reverted with an arithmetic panic, and no grant record is written.
\<close>

theorem grantAccess_overflow_counterexample:
  "isPatient ex_identity 1 \<and> isVerifiedDoctor ex_identity 2 \<and>
   grantAccess ex_identity 1700000000 1 2 (- 1) ac_init = (Inl PanicOverflow, ac_init) \<and>
   accessGrants (snd (grantAccess ex_identity 1700000000 1 2 (- 1) ac_init)) 1 2
     \<noteq> \<lparr>isGranted = True, grantedAt = 1700000000, expiresAt = 1700000000 + (- 1),
         existsG = True\<rparr>"
  by (simp add: grantAccess_def grantAccess_body_def transact_def checked_add_def
      unat_max_uint256 word_greater_zero_iff ex_isPatient ex_isVerifiedDoctor ac_init_def zero_grant_def)

text \<open>
  Claim C3, amended. For a registered patient \<open>p\<close>, a verified doctor \<open>d\<close> and a duration
  \<open>n\<close> with \<open>n = 0\<close> or \<open>now + n\<close> below \<open>2^256\<close>, \<open>grantAccess\<close> succeeds and sets the
  record of \<open>(p, d)\<close> to granted, \<open>grantedAt = now\<close>, \<open>expiresAt = now + n\<close> if \<open>n > 0\<close>
  and 0 otherwise; no other grant record changes; if no record existed the pair is appended
  once to \<open>p\<close>'s doctor list and to \<open>d\<close>'s patient list, and if one existed neither list
  changes; no other list changes. If \<open>now + n\<close> overflows, the call is reverted with an
  arithmetic panic and the storage is unchanged. In every reachable state each list is
  free of duplicates.
\<close>

theorem grantAccess_effect:
  "(isPatient idn p \<and> isVerifiedDoctor idn d \<and> (n = 0 \<or> unat now + unat n < 2 ^ 256) \<longrightarrow>
      (\<exists>s'. grantAccess idn now p d n s = (Inr (), s') \<and>
         accessGrants s' p d =
           \<lparr>isGranted = True, grantedAt = now,
            expiresAt = (if 0 < n then now + n else 0), existsG = True\<rparr> \<and>
         (0 < n \<longrightarrow> unat (expiresAt (accessGrants s' p d)) = unat now + unat n) \<and>
         (\<forall>p' d'. (p', d') \<noteq> (p, d) \<longrightarrow> accessGrants s' p' d' = accessGrants s p' d') \<and>
         (\<not> existsG (accessGrants s p d) \<longrightarrow>
            patientDoctors s' p = patientDoctors s p @ [d] \<and>
            doctorPatients s' d = doctorPatients s d @ [p]) \<and>
         (existsG (accessGrants s p d) \<longrightarrow>
            patientDoctors s' p = patientDoctors s p \<and>
            doctorPatients s' d = doctorPatients s d) \<and>
         (\<forall>p'. p' \<noteq> p \<longrightarrow> patientDoctors s' p' = patientDoctors s p') \<and>
         (\<forall>d'. d' \<noteq> d \<longrightarrow> doctorPatients s' d' = doctorPatients s d'))) \<and>
   (isPatient idn p \<and> isVerifiedDoctor idn d \<and> 0 < n \<and> 2 ^ 256 \<le> unat now + unat n \<longrightarrow>
      grantAccess idn now p d n s = (Inl PanicOverflow, s)) \<and>
   (ac_reachable s \<longrightarrow> distinct (patientDoctors s p) \<and> distinct (doctorPatients s d))"
proof (intro conjI impI)
  assume a: "isPatient idn p \<and> isVerifiedDoctor idn d \<and> (n = 0 \<or> unat now + unat n < 2 ^ 256)"
  then have g: "grantAccess idn now p d n s = (Inr (), granted_state now p d n s)"
    by (simp add: grantAccess_Inr)
  have u: "0 < n \<longrightarrow> unat (now + n) = unat now + unat n"
    using a by (auto simp: unat_word_ariths)
  show "\<exists>s'. grantAccess idn now p d n s = (Inr (), s') \<and>
         accessGrants s' p d =
           \<lparr>isGranted = True, grantedAt = now,
            expiresAt = (if 0 < n then now + n else 0), existsG = True\<rparr> \<and>
         (0 < n \<longrightarrow> unat (expiresAt (accessGrants s' p d)) = unat now + unat n) \<and>
         (\<forall>p' d'. (p', d') \<noteq> (p, d) \<longrightarrow> accessGrants s' p' d' = accessGrants s p' d') \<and>
         (\<not> existsG (accessGrants s p d) \<longrightarrow>
            patientDoctors s' p = patientDoctors s p @ [d] \<and>
            doctorPatients s' d = doctorPatients s d @ [p]) \<and>
         (existsG (accessGrants s p d) \<longrightarrow>
            patientDoctors s' p = patientDoctors s p \<and>
            doctorPatients s' d = doctorPatients s d) \<and>
         (\<forall>p'. p' \<noteq> p \<longrightarrow> patientDoctors s' p' = patientDoctors s p') \<and>
         (\<forall>d'. d' \<noteq> d \<longrightarrow> doctorPatients s' d' = doctorPatients s d')"
    using g u by (intro exI [of _ "granted_state now p d n s"]) (simp add: granted_state_def)
next
  assume "isPatient idn p \<and> isVerifiedDoctor idn d \<and> 0 < n \<and> 2 ^ 256 \<le> unat now + unat n"
  then show "grantAccess idn now p d n s = (Inl PanicOverflow, s)"
    by (simp add: grantAccess_def transact_def grantAccess_body_overflow)
next
  assume "ac_reachable s"
  then show "distinct (patientDoctors s p)" "distinct (doctorPatients s d)"
    by (simp_all add: ac_reachable_distinct)
qed

theorem grantAccess_effect_witness:
  "isPatient ex_identity 1 \<and> isVerifiedDoctor ex_identity 2 \<and>
   unat (100 :: uint256) + unat (3600 :: uint256) < 2 ^ 256 \<and>
   \<not> existsG (accessGrants ac_init 1 2) \<and>
   accessGrants (snd (grantAccess ex_identity 100 1 2 3600 ac_init)) 1 2
     = \<lparr>isGranted = True, grantedAt = 100, expiresAt = 3700, existsG = True\<rparr> \<and>
   patientDoctors (snd (grantAccess ex_identity 100 1 2 3600 ac_init)) 1 = [2] \<and>
   doctorPatients (snd (grantAccess ex_identity 100 1 2 3600 ac_init)) 2 = [1] \<and>
   existsG (accessGrants (granted_state 100 1 2 3600 ac_init) 1 2) \<and>
   accessGrants (snd (grantAccess ex_identity 500 1 2 0 (granted_state 100 1 2 3600 ac_init))) 1 2
     = \<lparr>isGranted = True, grantedAt = 500, expiresAt = 0, existsG = True\<rparr> \<and>
   patientDoctors
     (snd (grantAccess ex_identity 500 1 2 0 (granted_state 100 1 2 3600 ac_init))) 1 = [2] \<and>
   doctorPatients
     (snd (grantAccess ex_identity 500 1 2 0 (granted_state 100 1 2 3600 ac_init))) 2 = [1] \<and>
   (0 :: uint256) < - 1 \<and> 2 ^ 256 \<le> unat (1700000000 :: uint256) + unat (- 1 :: uint256) \<and>
   grantAccess ex_identity 1700000000 1 2 (- 1) ac_init = (Inl PanicOverflow, ac_init) \<and>
   ac_reachable (granted_state 100 1 2 3600 ac_init) \<and>
   distinct (patientDoctors (granted_state 100 1 2 3600 ac_init) 1)"
proof -
  let ?s = "granted_state 100 1 2 3600 ac_init"
  have i: "isPatient ex_identity 1" "isVerifiedDoctor ex_identity 2"
    by (simp_all add: ex_isPatient ex_isVerifiedDoctor)
  have h: "isPatient ex_identity 1 \<and> isVerifiedDoctor ex_identity 2 \<and>
      ((3600 :: uint256) = 0 \<or> unat (100 :: uint256) + unat (3600 :: uint256) < 2 ^ 256)"
    using i by simp
  have h0: "isPatient ex_identity 1 \<and> isVerifiedDoctor ex_identity 2 \<and>
      ((0 :: uint256) = 0 \<or> unat (500 :: uint256) + unat (0 :: uint256) < 2 ^ 256)"
    using i by simp
  have ho: "isPatient ex_identity 1 \<and> isVerifiedDoctor ex_identity 2 \<and> (0 :: uint256) < - 1 \<and>
      2 ^ 256 \<le> unat (1700000000 :: uint256) + unat (- 1 :: uint256)"
    using i by (simp add: unat_max_uint256 word_greater_zero_iff)
  have e: "\<not> existsG (accessGrants ac_init 1 2)" "patientDoctors ac_init 1 = []"
    "doctorPatients ac_init 2 = []"
    by (simp_all add: ac_init_def zero_grant_def)
  have e1: "existsG (accessGrants ?s 1 2)" "patientDoctors ?s 1 = [2]"
    "doctorPatients ?s 2 = [1]"
    by (simp_all add: granted_state_def ac_init_def zero_grant_def)
  from grantAccess_effect [where idn = ex_identity and p = 1 and d = 2 and n = 3600
      and now = 100 and s = ac_init, THEN conjunct1, rule_format, OF h]
  obtain s' where g: "grantAccess ex_identity 100 1 2 3600 ac_init = (Inr (), s')"
    and a: "accessGrants s' 1 2
       = \<lparr>isGranted = True, grantedAt = 100, expiresAt = 3700, existsG = True\<rparr>"
    and l: "patientDoctors s' 1 = [2]" "doctorPatients s' 2 = [1]"
    using e by auto
  from grantAccess_effect [where idn = ex_identity and p = 1 and d = 2 and n = 0
      and now = 500 and s = ?s, THEN conjunct1, rule_format, OF h0]
  obtain s'' where g2: "grantAccess ex_identity 500 1 2 0 ?s = (Inr (), s'')"
    and a2: "accessGrants s'' 1 2
       = \<lparr>isGranted = True, grantedAt = 500, expiresAt = 0, existsG = True\<rparr>"
    and l2: "patientDoctors s'' 1 = [2]" "doctorPatients s'' 2 = [1]"
    using e1 by auto
  have o: "grantAccess ex_identity 1700000000 1 2 (- 1) ac_init = (Inl PanicOverflow, ac_init)"
    by (rule grantAccess_effect [where idn = ex_identity and p = 1 and d = 2 and n = "- 1"
      and now = 1700000000 and s = ac_init, THEN conjunct2, THEN conjunct1, rule_format, OF ho])
  have "distinct (patientDoctors ?s 1)"
    using grantAccess_effect [where s = ?s and p = 1, THEN conjunct2, THEN conjunct2]
      ex_grant_reachable by simp
  then show ?thesis using h ho e e1 g a l g2 a2 l2 o ex_grant_reachable by simp
qed

text \<open>
  Claim C5. For a patient caller \<open>p\<close>, \<open>revokeAccess\<close> fails with ``No access grant
  found'' exactly when no grant record exists for \<open>(p, d)\<close>, and fails in no other case.
  When a record exists, revoked or not, the call succeeds and clears the \<open>isGranted\<close>
  flag only: \<open>grantedAt\<close>, \<open>expiresAt\<close>, the \<open>exists\<close> flag, both lists and every
  other grant record stay as they were. Revoking again succeeds and changes nothing.
\<close>

theorem revokeAccess_frame:
  "isPatient idn p \<Longrightarrow>
     (fst (revokeAccess idn p d s) = Inl (Revert ''No access grant found'')
        \<longleftrightarrow> \<not> existsG (accessGrants s p d)) \<and>
     ((\<exists>e. fst (revokeAccess idn p d s) = Inl e) \<longleftrightarrow> \<not> existsG (accessGrants s p d)) \<and>
     (existsG (accessGrants s p d) \<longrightarrow>
        (\<exists>s'. revokeAccess idn p d s = (Inr (), s') \<and>
           accessGrants s' p d = (accessGrants s p d)\<lparr>isGranted := False\<rparr> \<and>
           \<not> isGranted (accessGrants s' p d) \<and>
           grantedAt (accessGrants s' p d) = grantedAt (accessGrants s p d) \<and>
           expiresAt (accessGrants s' p d) = expiresAt (accessGrants s p d) \<and>
           existsG (accessGrants s' p d) \<and>
           (\<forall>p' d'. (p', d') \<noteq> (p, d) \<longrightarrow> accessGrants s' p' d' = accessGrants s p' d') \<and>
           patientDoctors s' = patientDoctors s \<and>
           doctorPatients s' = doctorPatients s \<and>
           revokeAccess idn p d s' = (Inr (), s'))) \<and>
     (existsG (accessGrants s p d) \<and> \<not> isGranted (accessGrants s p d) \<longrightarrow>
        revokeAccess idn p d s = (Inr (), s))"
proof (intro conjI impI)
  assume pat: "isPatient idn p"
  show "fst (revokeAccess idn p d s) = Inl (Revert ''No access grant found'')
        \<longleftrightarrow> \<not> existsG (accessGrants s p d)"
    using pat by (simp add: revokeAccess_def revokeAccess_body_def transact_def)
  show "(\<exists>e. fst (revokeAccess idn p d s) = Inl e) \<longleftrightarrow> \<not> existsG (accessGrants s p d)"
    using pat by (simp add: revokeAccess_def revokeAccess_body_def transact_def)
  {
    assume ex: "existsG (accessGrants s p d)"
    let ?s' = "revoked_state p d s"
    have 1: "revokeAccess idn p d s = (Inr (), ?s')"
      using pat ex by (simp add: revokeAccess_Inr)
    have ng: "\<not> isGranted (accessGrants ?s' p d)" "existsG (accessGrants ?s' p d)"
      using ex by (simp_all add: revoked_state_def)
    have 2: "revokeAccess idn p d ?s' = (Inr (), ?s')"
      using pat ng by (simp add: revokeAccess_Inr revoked_state_idem)
    show "\<exists>s'. revokeAccess idn p d s = (Inr (), s') \<and>
           accessGrants s' p d = (accessGrants s p d)\<lparr>isGranted := False\<rparr> \<and>
           \<not> isGranted (accessGrants s' p d) \<and>
           grantedAt (accessGrants s' p d) = grantedAt (accessGrants s p d) \<and>
           expiresAt (accessGrants s' p d) = expiresAt (accessGrants s p d) \<and>
           existsG (accessGrants s' p d) \<and>
           (\<forall>p' d'. (p', d') \<noteq> (p, d) \<longrightarrow> accessGrants s' p' d' = accessGrants s p' d') \<and>
           patientDoctors s' = patientDoctors s \<and>
           doctorPatients s' = doctorPatients s \<and>
           revokeAccess idn p d s' = (Inr (), s')"
      using 1 2 ex by (intro exI [of _ ?s']) (simp add: revoked_state_def)
  }
  {
    assume "existsG (accessGrants s p d) \<and> \<not> isGranted (accessGrants s p d)"
    then show "revokeAccess idn p d s = (Inr (), s)"
      using pat by (simp add: revokeAccess_Inr revoked_state_idem)
  }
qed

theorem revokeAccess_frame_witness:
  "isPatient ex_identity 1 \<and>
   existsG (accessGrants (granted_state 100 1 2 3600 ac_init) 1 2) \<and>
   revokeAccess ex_identity 1 2 (granted_state 100 1 2 3600 ac_init)
     = (Inr (), revoked_state 1 2 (granted_state 100 1 2 3600 ac_init)) \<and>
   accessGrants (revoked_state 1 2 (granted_state 100 1 2 3600 ac_init)) 1 2
     = \<lparr>isGranted = False, grantedAt = 100, expiresAt = 3700, existsG = True\<rparr> \<and>
   patientDoctors (revoked_state 1 2 (granted_state 100 1 2 3600 ac_init)) 1 = [2] \<and>
   doctorPatients (revoked_state 1 2 (granted_state 100 1 2 3600 ac_init)) 2 = [1] \<and>
   revokeAccess ex_identity 1 2 (revoked_state 1 2 (granted_state 100 1 2 3600 ac_init))
     = (Inr (), revoked_state 1 2 (granted_state 100 1 2 3600 ac_init)) \<and>
   \<not> existsG (accessGrants ac_init 1 2) \<and>
   fst (revokeAccess ex_identity 1 2 ac_init) = Inl (Revert ''No access grant found'')"
proof -
  let ?s = "granted_state 100 1 2 3600 ac_init"
  let ?t = "revoked_state 1 2 ?s"
  have pat: "isPatient ex_identity 1" by (simp add: ex_isPatient ex_isVerifiedDoctor)
  have ex: "existsG (accessGrants ?s 1 2)" "patientDoctors ?s 1 = [2]"
    "doctorPatients ?s 2 = [1]"
    by (simp_all add: granted_state_def ac_init_def zero_grant_def)
  have nex: "\<not> existsG (accessGrants ac_init 1 2)"
    by (simp add: ac_init_def zero_grant_def)
  from revokeAccess_frame [OF pat, of 2 ?s, THEN conjunct2, THEN conjunct2, THEN conjunct1] ex
  obtain s' where rv: "revokeAccess ex_identity 1 2 ?s = (Inr (), s')"
    and l: "patientDoctors s' = patientDoctors ?s" "doctorPatients s' = doctorPatients ?s"
    by blast
  have s': "s' = ?t" using rv ex_revoke by simp
  have again: "revokeAccess ex_identity 1 2 ?t = (Inr (), ?t)"
    using revokeAccess_frame [OF pat, of 2 ?t, THEN conjunct2, THEN conjunct2, THEN conjunct2]
    by (simp add: ex_revoked_record)
  have nf: "fst (revokeAccess ex_identity 1 2 ac_init) = Inl (Revert ''No access grant found'')"
    using revokeAccess_frame [OF pat, of 2 ac_init, THEN conjunct1] nex by simp
  show ?thesis
    using pat ex nex rv l again nf unfolding s' by (simp add: ex_revoked_record)
qed

text \<open>
  Claim C10. \<open>getAccessGrant\<close> returns a tuple and has no failing branch. In a reachable
  state, for a pair without grant record it returns \<open>(false, 0, 0, false)\<close>. The returned
  \<open>isExpired\<close> is \<open>expiresAt > 0 \<and> now > expiresAt\<close>, whatever the granted flag:
  a revocation leaves it as it was, and a revoked grant that has not expired reports
  \<open>isGranted = false\<close> with \<open>isExpired = false\<close>.
\<close>

theorem getAccessGrant_absent:
  "(ac_reachable s \<and> \<not> existsG (accessGrants s p d)
       \<longrightarrow> getAccessGrant s now p d = (False, 0, 0, False)) \<and>
   (snd (snd (snd (getAccessGrant s now p d)))
       \<longleftrightarrow> 0 < expiresAt (accessGrants s p d) \<and> expiresAt (accessGrants s p d) < now) \<and>
   (revokeAccess idn p d s = (Inr (), s') \<longrightarrow>
      snd (snd (snd (getAccessGrant s' now p d))) = snd (snd (snd (getAccessGrant s now p d)))) \<and>
   (\<not> isGranted (accessGrants s p d) \<and>
    \<not> (0 < expiresAt (accessGrants s p d) \<and> expiresAt (accessGrants s p d) < now)
       \<longrightarrow> getAccessGrant s now p d
            = (False, grantedAt (accessGrants s p d), expiresAt (accessGrants s p d), False))"
proof (intro conjI impI)
  assume "ac_reachable s \<and> \<not> existsG (accessGrants s p d)"
  then have "accessGrants s p d = zero_grant" by (simp add: ac_reachable_zero)
  then show "getAccessGrant s now p d = (False, 0, 0, False)"
    by (simp add: getAccessGrant_def zero_grant_def)
next
  show "snd (snd (snd (getAccessGrant s now p d)))
       \<longleftrightarrow> 0 < expiresAt (accessGrants s p d) \<and> expiresAt (accessGrants s p d) < now"
    by (simp add: getAccessGrant_def Let_def)
next
  assume "revokeAccess idn p d s = (Inr (), s')"
  then have "s' = revoked_state p d s" by (simp add: revokeAccess_Inr)
  then show "snd (snd (snd (getAccessGrant s' now p d)))
      = snd (snd (snd (getAccessGrant s now p d)))"
    by (simp add: getAccessGrant_def Let_def revoked_state_def)
next
  assume "\<not> isGranted (accessGrants s p d) \<and>
    \<not> (0 < expiresAt (accessGrants s p d) \<and> expiresAt (accessGrants s p d) < now)"
  then show "getAccessGrant s now p d
            = (False, grantedAt (accessGrants s p d), expiresAt (accessGrants s p d), False)"
    by (auto simp: getAccessGrant_def Let_def)
qed

theorem getAccessGrant_absent_witness:
  "ac_reachable (granted_state 100 1 2 3600 ac_init) \<and>
   \<not> existsG (accessGrants (granted_state 100 1 2 3600 ac_init) 2 1) \<and>
   getAccessGrant (granted_state 100 1 2 3600 ac_init) 200 2 1 = (False, 0, 0, False) \<and>
   revokeAccess ex_identity 1 2 (granted_state 100 1 2 3600 ac_init)
     = (Inr (), revoked_state 1 2 (granted_state 100 1 2 3600 ac_init)) \<and>
   getAccessGrant (granted_state 100 1 2 3600 ac_init) 200 1 2 = (True, 100, 3700, False) \<and>
   getAccessGrant (revoked_state 1 2 (granted_state 100 1 2 3600 ac_init)) 200 1 2
     = (False, 100, 3700, False) \<and>
   getAccessGrant (revoked_state 1 2 (granted_state 100 1 2 3600 ac_init)) 3701 1 2
     = (False, 100, 3700, True)"
proof -
  let ?s = "granted_state 100 1 2 3600 ac_init"
  let ?t = "revoked_state 1 2 ?s"
  have nex: "\<not> existsG (accessGrants ?s 2 1)"
    by (simp add: granted_state_def ac_init_def zero_grant_def)
  have a: "getAccessGrant ?s 200 2 1 = (False, 0, 0, False)"
    using getAccessGrant_absent [of ?s 2 1 200, THEN conjunct1] nex ex_grant_reachable
    by simp
  have b: "getAccessGrant ?s 200 1 2 = (True, 100, 3700, False)"
    by (simp add: getAccessGrant_def ex_grant_record)
  have "snd (snd (snd (getAccessGrant ?t 200 1 2))) = snd (snd (snd (getAccessGrant ?s 200 1 2)))"
    using getAccessGrant_absent [of ?s 1 2 200 ex_identity ?t,
        THEN conjunct2, THEN conjunct2, THEN conjunct1] ex_revoke
    by simp
  then have c: "\<not> snd (snd (snd (getAccessGrant ?t 200 1 2)))" by (simp add: b)
  have d: "getAccessGrant ?t 200 1 2 = (False, 100, 3700, False)"
    using getAccessGrant_absent [of ?t 1 2 200,
        THEN conjunct2, THEN conjunct2, THEN conjunct2]
    by (simp add: ex_revoked_record)
  have "snd (snd (snd (getAccessGrant ?t 3701 1 2)))"
    using getAccessGrant_absent [of ?t 1 2 3701, THEN conjunct2, THEN conjunct1]
    by (simp add: ex_revoked_record)
  then have e: "getAccessGrant ?t 3701 1 2 = (False, 100, 3700, True)"
    by (simp add: getAccessGrant_def Let_def ex_revoked_record)
  show ?thesis using ex_grant_reachable nex a b d e ex_revoke by simp
qed

lemma countActive_filter:
  "unat acc + length (filter (\<lambda>p. isGranted (grants p d) \<and>
        (expiresAt (grants p d) = 0 \<or> now \<le> expiresAt (grants p d))) ps) < 2 ^ 256 \<Longrightarrow>
   \<exists>c. countActive grants now d ps acc = Inr c \<and>
       unat c = unat acc + length (filter (\<lambda>p. isGranted (grants p d) \<and>
        (expiresAt (grants p d) = 0 \<or> now \<le> expiresAt (grants p d))) ps)"
proof (induction ps arbitrary: acc)
  case Nil
  then show ?case by simp
next
  case (Cons p ps)
  show ?case
  proof (cases "isGranted (grants p d) \<and>
        (expiresAt (grants p d) = 0 \<or> now \<le> expiresAt (grants p d))")
    case True
    with Cons.prems have b: "Suc (unat acc) + length (filter (\<lambda>p. isGranted (grants p d) \<and>
        (expiresAt (grants p d) = 0 \<or> now \<le> expiresAt (grants p d))) ps) < 2 ^ 256"
      by simp
    then have "unat acc + unat (1 :: uint256) < 2 ^ 256" by simp
    then have i: "checked_inc acc = Inr (acc + 1)"
      by (simp add: checked_inc_def checked_add_def)
    have u: "unat (acc + 1) = Suc (unat acc)" using i by (rule checked_inc_unat)
    from Cons.IH [of "acc + 1"] b u True i show ?thesis by (auto simp: Let_def)
  next
    case False
    with Cons.prems Cons.IH [of acc] show ?thesis by (auto simp: Let_def)
  qed
qed

lemma distinct_address_length:
  fixes xs :: "address list"
  assumes "distinct xs"
  shows "length xs < 2 ^ 256"
proof -
  have "length xs = card (set xs)" using assms by (simp add: distinct_card)
  also have "\<dots> \<le> card (UNIV :: address set)" by (rule card_mono) simp_all
  also have "\<dots> = 2 ^ 160" by (simp add: card_word)
  also have "\<dots> < (2 :: nat) ^ 256" by simp
  finally show ?thesis .
qed

lemma hasAccess_set:
  assumes "ac_reachable s"
  shows "{p. hasAccess s now p d} =
     {p. isGranted (accessGrants s p d) \<and>
         (expiresAt (accessGrants s p d) = 0 \<or> now \<le> expiresAt (accessGrants s p d))}
     \<inter> set (doctorPatients s d)"
  using ac_reachable_mem [OF assms, of _ d]
  by (auto simp: hasAccess_iff word_greater_zero_iff not_less)

text \<open>
  Claim C8. In every reachable state \<open>getActivePatientCount\<close> returns, without
  overflow, the number of entries of the doctor's patient list whose grant record has
  \<open>isGranted\<close> set and is not expired (\<open>expiresAt = 0\<close> or \<open>now \<le> expiresAt\<close>); the list
  holds each patient at most once, so this is the number of patients \<open>p\<close> for which
  \<open>hasAccess p d\<close> is true now.
\<close>

theorem getActivePatientCount_counts:
  "ac_reachable s \<Longrightarrow>
   \<exists>c. getActivePatientCount s now d = Inr c \<and>
       unat c = length (filter (\<lambda>p. isGranted (accessGrants s p d) \<and>
                   (expiresAt (accessGrants s p d) = 0 \<or> now \<le> expiresAt (accessGrants s p d)))
                 (doctorPatients s d)) \<and>
       unat c = card {p. hasAccess s now p d}"
proof -
  assume r: "ac_reachable s"
  let ?A = "\<lambda>p. isGranted (accessGrants s p d) \<and>
              (expiresAt (accessGrants s p d) = 0 \<or> now \<le> expiresAt (accessGrants s p d))"
  have dist: "distinct (doctorPatients s d)" using r by (simp add: ac_reachable_distinct)
  have "length (filter ?A (doctorPatients s d)) \<le> length (doctorPatients s d)" by simp
  also have "\<dots> < 2 ^ 256" using dist by (rule distinct_address_length)
  finally have "unat (0 :: uint256) + length (filter ?A (doctorPatients s d)) < 2 ^ 256" by simp
  from countActive_filter [where grants = "accessGrants s" and d = d and now = now
      and ps = "doctorPatients s d" and acc = 0, OF this]
  obtain c where c: "getActivePatientCount s now d = Inr c"
    and u: "unat c = length (filter ?A (doctorPatients s d))"
    by (auto simp: getActivePatientCount_def)
  have "length (filter ?A (doctorPatients s d)) = card {p. hasAccess s now p d}"
    using dist by (simp add: distinct_length_filter hasAccess_set [OF r])
  with c u show ?thesis by simp
qed

theorem getActivePatientCount_counts_witness:
  "ac_reachable (granted_state 100 1 2 3600 ac_init) \<and>
   getActivePatientCount (granted_state 100 1 2 3600 ac_init) 3700 2 = Inr 1 \<and>
   card {p. hasAccess (granted_state 100 1 2 3600 ac_init) 3700 p 2} = 1 \<and>
   getActivePatientCount (granted_state 100 1 2 3600 ac_init) 3701 2 = Inr 0 \<and>
   card {p. hasAccess (granted_state 100 1 2 3600 ac_init) 3701 p 2} = 0"
proof -
  let ?s = "granted_state 100 1 2 3600 ac_init"
  have a: "getActivePatientCount ?s 3700 2 = Inr 1"
    by (simp add: getActivePatientCount_def granted_state_def ac_init_def zero_grant_def
        checked_inc_def checked_add_def)
  have b: "getActivePatientCount ?s 3701 2 = Inr 0"
    by (simp add: getActivePatientCount_def granted_state_def ac_init_def zero_grant_def)
  show ?thesis
    using a b ex_grant_reachable
      getActivePatientCount_counts [OF ex_grant_reachable, of 3700 2]
      getActivePatientCount_counts [OF ex_grant_reachable, of 3701 2]
    by auto
qed

section \<open>MedicalRecordRegistry: the claims\<close>

lemma createRecord_body_ok:
  "isVerifiedDoctor idn c \<Longrightarrow> isPatient idn p \<Longrightarrow> recordCount s \<noteq> - 1 \<Longrightarrow>
   createRecord_body idn now c p h cid t s = (Inr (recordCount s), created_state now c p h cid t s)"
  using checked_inc_Inr_iff [of "recordCount s" "recordCount s + 1"]
  by (simp add: createRecord_body_def created_state_def Let_def)

lemma createRecord_body_overflow:
  "isVerifiedDoctor idn c \<Longrightarrow> isPatient idn p \<Longrightarrow> recordCount s = - 1 \<Longrightarrow>
   fst (createRecord_body idn now c p h cid t s) = Inl PanicOverflow"
  by (simp add: createRecord_body_def Let_def checked_inc_max)

lemma createRecord_Inr:
  "createRecord idn now c p h cid t s = (Inr r, s') \<longleftrightarrow>
     isVerifiedDoctor idn c \<and> isPatient idn p \<and> recordCount s \<noteq> - 1 \<and>
     r = recordCount s \<and> s' = created_state now c p h cid t s"
proof (cases "isVerifiedDoctor idn c \<and> isPatient idn p")
  case False
  then show ?thesis
    by (auto simp: createRecord_def transact_Inr_iff createRecord_body_def)
next
  case True
  show ?thesis
  proof (cases "recordCount s = - 1")
    case True
    with \<open>isVerifiedDoctor idn c \<and> isPatient idn p\<close>
      createRecord_body_overflow [of idn c p s now h cid t]
    show ?thesis by (auto simp: createRecord_def transact_Inr_iff)
  next
    case False
    with True createRecord_body_ok [of idn c p s now h cid t]
    show ?thesis by (auto simp: createRecord_def transact_Inr_iff)
  qed
qed

lemma createRecord_Inl:
  "fst (createRecord idn now c p h cid t s) = Inl e \<Longrightarrow>
   snd (createRecord idn now c p h cid t s) = s"
  unfolding createRecord_def by (rule transact_Inl_state)

lemma createRecord_not_doctor:
  "\<not> isVerifiedDoctor idn c \<Longrightarrow>
   createRecord idn now c p h cid t s
     = (Inl (Revert ''Only verified doctors can create records''), s)"
  by (simp add: createRecord_def transact_def createRecord_body_def)

lemma createRecord_not_patient:
  "isVerifiedDoctor idn c \<Longrightarrow> \<not> isPatient idn p \<Longrightarrow>
   createRecord idn now c p h cid t s = (Inl (Revert ''Patient not registered''), s)"
  by (simp add: createRecord_def transact_def createRecord_body_def)

lemma createRecord_at_max:
  assumes "isVerifiedDoctor idn c" "isPatient idn p" "recordCount s = - 1"
  shows "createRecord idn now c p h cid t s = (Inl PanicOverflow, s)"
proof -
  have "fst (createRecord_body idn now c p h cid t s) = Inl PanicOverflow"
    using assms by (rule createRecord_body_overflow)
  then show ?thesis
    by (cases "createRecord_body idn now c p h cid t s")
       (simp add: createRecord_def transact_def)
qed

lemma toggleVisibility_body_Inl:
  "fst (toggleVisibility_body c r s) = Inl e \<Longrightarrow> snd (toggleVisibility_body c r s) = s"
  by (auto simp: toggleVisibility_body_def split: if_splits)

lemma toggleVisibility_Inr:
  "toggleVisibility c r s = (Inr (), s') \<longleftrightarrow>
     existsR (records s r) \<and> patient (records s r) = c \<and> s' = toggled_state r s"
  unfolding toggleVisibility_def transact_Inr_iff
  by (auto simp: toggleVisibility_body_def toggled_state_def)

lemma toggleVisibility_count: "recordCount (snd (toggleVisibility c r s)) = recordCount s"
  by (simp add: toggleVisibility_def transact_def toggleVisibility_body_def)

lemma toggled_twice: "toggled_state r (toggled_state r s) = s"
  by (simp add: toggled_state_def)

lemma run_calls_ids:
  "run_calls s cs = (ids, s') \<Longrightarrow>
     ids = map of_nat [unat (recordCount s) ..< unat (recordCount s) + length ids] \<and>
     unat (recordCount s') = unat (recordCount s) + length ids"
proof (induction cs arbitrary: s ids s')
  case Nil
  then show ?case by simp
next
  case (Cons call cs)
  show ?case
  proof (cases call)
    case (ToggleVisibility c r)
    with Cons.prems have "run_calls (snd (toggleVisibility c r s)) cs = (ids, s')" by simp
    from Cons.IH [OF this] show ?thesis by (simp add: toggleVisibility_count)
  next
    case (CreateRecord idn now c p h cid t)
    obtain res s1 where cr: "createRecord idn now c p h cid t s = (res, s1)"
      by (cases "createRecord idn now c p h cid t s")
    show ?thesis
    proof (cases res)
      case (Inl e)
      with cr have "s1 = s" using createRecord_Inl [of idn now c p h cid t s e] by simp
      with Cons.prems CreateRecord cr Inl have "run_calls s cs = (ids, s')" by simp
      from Cons.IH [OF this] show ?thesis .
    next
      case (Inr r)
      with cr have r: "r = recordCount s" and ne: "recordCount s \<noteq> - 1"
        and s1: "s1 = created_state now c p h cid t s"
        by (simp_all add: createRecord_Inr)
      have u: "unat (recordCount s1) = Suc (unat (recordCount s))"
        using ne checked_inc_Inr_iff [of "recordCount s" "recordCount s + 1"]
        by (simp add: s1 created_state_def checked_inc_unat)
      obtain ids' where rest: "run_calls s1 cs = (ids', s')" and ids: "ids = r # ids'"
        using Cons.prems CreateRecord cr Inr by (auto split: prod.splits)
      from Cons.IH [OF rest] u
      have a: "ids' = map of_nat [Suc (unat (recordCount s)) ..<
                                 Suc (unat (recordCount s)) + length ids']"
        and b: "unat (recordCount s') = Suc (unat (recordCount s)) + length ids'"
        by simp_all
      have n: "unat (recordCount s) + length ids = Suc (unat (recordCount s)) + length ids'"
        by (simp add: ids)
      have e: "[unat (recordCount s) ..< Suc (unat (recordCount s)) + length ids']
          = unat (recordCount s) # [Suc (unat (recordCount s)) ..<
                                     Suc (unat (recordCount s)) + length ids']"
        by (rule upt_conv_Cons) simp
      have k: "(of_nat (unat (recordCount s)) :: uint256) = r" by (simp add: r)
      have "map of_nat [unat (recordCount s) ..< unat (recordCount s) + length ids]
          = r # ids'"
        unfolding n using e a k by (metis list.simps(9))
      then show ?thesis using b ids by simp
    qed
  qed
qed

lemma run_calls_from_init:
  assumes "run_calls reg_init cs = (ids, s')"
  shows "ids = map of_nat [0 ..< length ids]" "map unat ids = [0 ..< length ids]"
    "unat (recordCount s') = length ids"
proof -
  from run_calls_ids [OF assms]
  show a: "ids = map of_nat [0 ..< length ids]" and b: "unat (recordCount s') = length ids"
    by (simp_all add: reg_init_def)
  have "unat (recordCount s') < 2 ^ 256" using unsigned_less [of "recordCount s'"] by simp
  then have lt: "length ids < 2 ^ 256" unfolding b .
  have "map unat (map (of_nat :: nat \<Rightarrow> uint256) [0 ..< length ids]) = [0 ..< length ids]"
  proof (rule map_idI [of _ "unat \<circ> of_nat", unfolded map_map [symmetric]])
    fix x assume "x \<in> set [0 ..< length ids]"
    then have "x < 2 ^ 256" using lt by simp
    then show "(unat \<circ> (of_nat :: nat \<Rightarrow> uint256)) x = x"
      by (simp add: unat_of_nat)
  qed
  with a show "map unat ids = [0 ..< length ids]" by simp
qed

lemma run_calls_length: "run_calls s cs = (ids, s') \<Longrightarrow> length ids \<le> length cs"
proof (induction cs arbitrary: s ids s')
  case Nil
  then show ?case by simp
next
  case (Cons call cs)
  show ?case
  proof (cases call)
    case (ToggleVisibility c r)
    with Cons.prems have "run_calls (snd (toggleVisibility c r s)) cs = (ids, s')" by simp
    from Cons.IH [OF this] show ?thesis by simp
  next
    case (CreateRecord idn now c p h cid t)
    obtain res s1 where cr: "createRecord idn now c p h cid t s = (res, s1)"
      by (cases "createRecord idn now c p h cid t s")
    show ?thesis
    proof (cases res)
      case (Inl e)
      with Cons.prems CreateRecord cr have "run_calls s1 cs = (ids, s')" by simp
      from Cons.IH [OF this] show ?thesis by simp
    next
      case (Inr r)
      obtain ids' where rest: "run_calls s1 cs = (ids', s')" and ids: "ids = r # ids'"
        using Cons.prems CreateRecord cr Inr by (auto split: prod.splits)
      from Cons.IH [OF rest] ids show ?thesis by simp
    qed
  qed
qed

lemma run_calls_below_max:
  assumes "run_calls reg_init cs = (ids, s)" "length cs < 2 ^ 256 - 1"
  shows "recordCount s \<noteq> - 1"
proof
  assume "recordCount s = - 1"
  then have "unat (recordCount s) = 2 ^ 256 - 1" by (simp add: unat_max_uint256)
  moreover have "unat (recordCount s) = length ids"
    using assms(1) by (rule run_calls_from_init)
  moreover have "length ids \<le> length cs" using assms(1) by (rule run_calls_length)
  ultimately show False using assms(2) by simp
qed

lemma createRecord_body_Inl:
  "recordCount s \<noteq> - 1 \<Longrightarrow> fst (createRecord_body idn now c p h cid t s) = Inl e \<Longrightarrow>
   snd (createRecord_body idn now c p h cid t s) = s"
  by (auto simp: createRecord_body_def Let_def split: if_splits sum.splits
      dest: checked_inc_Inl)

lemma ex_created_record:
  "records (created_state 100 2 1 7 ''Qm'' DIAGNOSIS reg_init) 0 =
     \<lparr>recordHash = 7, ipfsCid = ''Qm'', patient = 1, doctor = 2, recordType = DIAGNOSIS,
      isVisible = True, createdAt = 100, existsR = True\<rparr>"
  by (simp add: created_state_def reg_init_def)

lemma ex_create:
  "createRecord ex_identity 100 2 1 7 ''Qm'' DIAGNOSIS reg_init
     = (Inr 0, created_state 100 2 1 7 ''Qm'' DIAGNOSIS reg_init)"
  by (simp add: createRecord_Inr ex_isPatient ex_isVerifiedDoctor reg_init_def)

text \<open>The example states used below are states the contracts reach by their own calls.\<close>

lemma ex_toggle:
  "toggleVisibility 1 0 (created_state 100 2 1 7 ''Qm'' DIAGNOSIS reg_init)
     = (Inr (), toggled_state 0 (created_state 100 2 1 7 ''Qm'' DIAGNOSIS reg_init))"
  by (simp add: toggleVisibility_Inr ex_created_record)

lemma ex_grant_permanent:
  "grantAccess ex_identity 100 1 3 0 ac_init = (Inr (), granted_state 100 1 3 0 ac_init)"
  by (simp add: grantAccess_Inr ex_isPatient ex_isVerifiedDoctor)

lemma ex_three_records:
  "run_calls reg_init
     [CreateRecord ex_identity 100 2 1 7 ''Qm'' DIAGNOSIS,
      CreateRecord ex_identity 101 2 1 8 ''Qn'' IMAGING,
      CreateRecord ex_identity 102 3 1 9 ''Qo'' LAB_REPORT,
      ToggleVisibility 1 1]
   = ([0, 1, 2],
      toggled_state 1 (created_state 102 3 1 9 ''Qo'' LAB_REPORT
        (created_state 101 2 1 8 ''Qn'' IMAGING
           (created_state 100 2 1 7 ''Qm'' DIAGNOSIS reg_init))))"
proof -
  let ?s1 = "created_state 100 2 1 7 ''Qm'' DIAGNOSIS reg_init"
  let ?s2 = "created_state 101 2 1 8 ''Qn'' IMAGING ?s1"
  let ?s3 = "created_state 102 3 1 9 ''Qo'' LAB_REPORT ?s2"
  have c2: "createRecord ex_identity 101 2 1 8 ''Qn'' IMAGING ?s1 = (Inr 1, ?s2)"
    by (simp add: createRecord_Inr ex_isPatient ex_isVerifiedDoctor created_state_def reg_init_def)
  have c3: "createRecord ex_identity 102 3 1 9 ''Qo'' LAB_REPORT ?s2 = (Inr 2, ?s3)"
    by (simp add: createRecord_Inr ex_isPatient ex_isVerifiedDoctor created_state_def reg_init_def)
  have tg: "toggleVisibility 1 1 ?s3 = (Inr (), toggled_state 1 ?s3)"
    by (simp add: toggleVisibility_Inr created_state_def reg_init_def)
  show ?thesis by (simp add: ex_create c2 c3 tg)
qed

lemma ex_three_state:
  "recordCount (toggled_state 1 (created_state 102 3 1 9 ''Qo'' LAB_REPORT
        (created_state 101 2 1 8 ''Qn'' IMAGING
           (created_state 100 2 1 7 ''Qm'' DIAGNOSIS reg_init)))) = 3"
  "patientRecords (toggled_state 1 (created_state 102 3 1 9 ''Qo'' LAB_REPORT
        (created_state 101 2 1 8 ''Qn'' IMAGING
           (created_state 100 2 1 7 ''Qm'' DIAGNOSIS reg_init)))) 1 = [0, 1, 2]"
  "records (toggled_state 1 (created_state 102 3 1 9 ''Qo'' LAB_REPORT
        (created_state 101 2 1 8 ''Qn'' IMAGING
           (created_state 100 2 1 7 ''Qm'' DIAGNOSIS reg_init)))) 0 =
     \<lparr>recordHash = 7, ipfsCid = ''Qm'', patient = 1, doctor = 2, recordType = DIAGNOSIS,
      isVisible = True, createdAt = 100, existsR = True\<rparr>"
  by (simp_all add: toggled_state_def created_state_def reg_init_def)

text \<open>
  Claim C2. In every state that a run of fewer than \<open>2^256 - 1\<close> calls reaches from the
  deployed registry, \<open>createRecord\<close> succeeds exactly when the caller is a verified doctor
  and the patient is registered, both read from the identity contract. It fails with the
  doctor check first, then the patient check. On success it returns the current count as the
  new id, stores the record visible under that id, appends the id to the patient's and to
  the author's list and increments the count. In any run of calls from the deployed state
  the ids returned are 0, 1, 2, ... in creation order, and the count is their number.
  (The bound on the run keeps the count below \<open>2^256 - 1\<close>, where the checked increment
  would panic, see \<open>createRecord_at_max\<close>; no chain carries out a run that long.)
\<close>

theorem createRecord_sequence:
  "(run_calls reg_init cs = (ids, s) \<and> length cs < 2 ^ 256 - 1 \<longrightarrow>
      ((\<exists>r s'. createRecord idn now c p h cid t s = (Inr r, s')) \<longleftrightarrow>
         isVerifiedDoctor idn c \<and> isPatient idn p)) \<and>
   (\<not> isVerifiedDoctor idn c \<longrightarrow>
      createRecord idn now c p h cid t s
        = (Inl (Revert ''Only verified doctors can create records''), s)) \<and>
   (isVerifiedDoctor idn c \<and> \<not> isPatient idn p \<longrightarrow>
      createRecord idn now c p h cid t s = (Inl (Revert ''Patient not registered''), s)) \<and>
   (createRecord idn now c p h cid t s = (Inr r, s') \<longrightarrow>
      r = recordCount s \<and>
      records s' = (records s)
        (r := \<lparr>recordHash = h, ipfsCid = cid, patient = p, doctor = c, recordType = t,
               isVisible = True, createdAt = now, existsR = True\<rparr>) \<and>
      patientRecords s' = (patientRecords s)(p := patientRecords s p @ [r]) \<and>
      doctorRecords s' = (doctorRecords s)(c := doctorRecords s c @ [r]) \<and>
      recordCount s' = recordCount s + 1 \<and>
      unat (recordCount s') = unat (recordCount s) + 1) \<and>
   (run_calls reg_init cs = (ids, s) \<longrightarrow>
      ids = map of_nat [0 ..< length ids] \<and> map unat ids = [0 ..< length ids] \<and>
      unat (recordCount s) = length ids)"
proof (intro conjI impI)
  assume "run_calls reg_init cs = (ids, s) \<and> length cs < 2 ^ 256 - 1"
  then have "recordCount s \<noteq> - 1" using run_calls_below_max [of cs ids s] by blast
  then show "(\<exists>r s'. createRecord idn now c p h cid t s = (Inr r, s')) \<longleftrightarrow>
      isVerifiedDoctor idn c \<and> isPatient idn p"
    by (simp add: createRecord_Inr)
next
  assume "\<not> isVerifiedDoctor idn c"
  then show "createRecord idn now c p h cid t s
        = (Inl (Revert ''Only verified doctors can create records''), s)"
    by (rule createRecord_not_doctor)
next
  assume "isVerifiedDoctor idn c \<and> \<not> isPatient idn p"
  then show "createRecord idn now c p h cid t s = (Inl (Revert ''Patient not registered''), s)"
    by (simp add: createRecord_not_patient)
next
  assume a: "createRecord idn now c p h cid t s = (Inr r, s')"
  then have r: "r = recordCount s" and ne: "recordCount s \<noteq> - 1"
    and s': "s' = created_state now c p h cid t s"
    by (simp_all add: createRecord_Inr)
  show "r = recordCount s" by (rule r)
  show "records s' = (records s)
        (r := \<lparr>recordHash = h, ipfsCid = cid, patient = p, doctor = c, recordType = t,
               isVisible = True, createdAt = now, existsR = True\<rparr>)"
    by (simp add: s' r created_state_def)
  show "patientRecords s' = (patientRecords s)(p := patientRecords s p @ [r])"
    by (simp add: s' r created_state_def)
  show "doctorRecords s' = (doctorRecords s)(c := doctorRecords s c @ [r])"
    by (simp add: s' r created_state_def)
  show "recordCount s' = recordCount s + 1"
    by (simp add: s' created_state_def)
  show "unat (recordCount s') = unat (recordCount s) + 1"
    using ne checked_inc_Inr_iff [of "recordCount s" "recordCount s + 1"]
    by (simp add: s' created_state_def checked_inc_unat)
next
  assume "run_calls reg_init cs = (ids, s)"
  then show "ids = map of_nat [0 ..< length ids]" "map unat ids = [0 ..< length ids]"
    "unat (recordCount s) = length ids"
    by (rule run_calls_from_init)+
qed

theorem createRecord_sequence_witness:
  "run_calls reg_init
     [CreateRecord ex_identity 100 2 1 7 ''Qm'' DIAGNOSIS,
      CreateRecord ex_identity 101 2 1 8 ''Qn'' IMAGING,
      CreateRecord ex_identity 102 3 1 9 ''Qo'' LAB_REPORT,
      ToggleVisibility 1 1]
   = ([0, 1, 2],
      toggled_state 1 (created_state 102 3 1 9 ''Qo'' LAB_REPORT
        (created_state 101 2 1 8 ''Qn'' IMAGING
           (created_state 100 2 1 7 ''Qm'' DIAGNOSIS reg_init)))) \<and>
   length [CreateRecord ex_identity 100 2 1 7 ''Qm'' DIAGNOSIS,
      CreateRecord ex_identity 101 2 1 8 ''Qn'' IMAGING,
      CreateRecord ex_identity 102 3 1 9 ''Qo'' LAB_REPORT,
      ToggleVisibility 1 1] < 2 ^ 256 - 1 \<and>
   unat (recordCount
     (toggled_state 1 (created_state 102 3 1 9 ''Qo'' LAB_REPORT
        (created_state 101 2 1 8 ''Qn'' IMAGING
           (created_state 100 2 1 7 ''Qm'' DIAGNOSIS reg_init))))) = 3 \<and>
   isVerifiedDoctor ex_identity 2 \<and> isPatient ex_identity 1 \<and>
   fst (createRecord ex_identity 103 2 1 6 ''Qp'' FOLLOWUP
     (toggled_state 1 (created_state 102 3 1 9 ''Qo'' LAB_REPORT
        (created_state 101 2 1 8 ''Qn'' IMAGING
           (created_state 100 2 1 7 ''Qm'' DIAGNOSIS reg_init))))) = Inr 3 \<and>
   patientRecords (snd (createRecord ex_identity 103 2 1 6 ''Qp'' FOLLOWUP
     (toggled_state 1 (created_state 102 3 1 9 ''Qo'' LAB_REPORT
        (created_state 101 2 1 8 ''Qn'' IMAGING
           (created_state 100 2 1 7 ''Qm'' DIAGNOSIS reg_init)))))) 1 = [0, 1, 2, 3] \<and>
   recordCount (snd (createRecord ex_identity 103 2 1 6 ''Qp'' FOLLOWUP
     (toggled_state 1 (created_state 102 3 1 9 ''Qo'' LAB_REPORT
        (created_state 101 2 1 8 ''Qn'' IMAGING
           (created_state 100 2 1 7 ''Qm'' DIAGNOSIS reg_init)))))) = 4 \<and>
   \<not> isVerifiedDoctor ex_identity 1 \<and>
   createRecord ex_identity 103 1 1 6 ''Qp'' FOLLOWUP
     (toggled_state 1 (created_state 102 3 1 9 ''Qo'' LAB_REPORT
        (created_state 101 2 1 8 ''Qn'' IMAGING
           (created_state 100 2 1 7 ''Qm'' DIAGNOSIS reg_init))))
     = (Inl (Revert ''Only verified doctors can create records''),
        toggled_state 1 (created_state 102 3 1 9 ''Qo'' LAB_REPORT
          (created_state 101 2 1 8 ''Qn'' IMAGING
             (created_state 100 2 1 7 ''Qm'' DIAGNOSIS reg_init)))) \<and>
   \<not> isPatient ex_identity 4 \<and>
   createRecord ex_identity 103 2 4 6 ''Qp'' FOLLOWUP
     (toggled_state 1 (created_state 102 3 1 9 ''Qo'' LAB_REPORT
        (created_state 101 2 1 8 ''Qn'' IMAGING
           (created_state 100 2 1 7 ''Qm'' DIAGNOSIS reg_init))))
     = (Inl (Revert ''Patient not registered''),
        toggled_state 1 (created_state 102 3 1 9 ''Qo'' LAB_REPORT
          (created_state 101 2 1 8 ''Qn'' IMAGING
             (created_state 100 2 1 7 ''Qm'' DIAGNOSIS reg_init))))"
proof -
  let ?cs = "[CreateRecord ex_identity 100 2 1 7 ''Qm'' DIAGNOSIS,
      CreateRecord ex_identity 101 2 1 8 ''Qn'' IMAGING,
      CreateRecord ex_identity 102 3 1 9 ''Qo'' LAB_REPORT,
      ToggleVisibility 1 1]"
  let ?s = "toggled_state 1 (created_state 102 3 1 9 ''Qo'' LAB_REPORT
        (created_state 101 2 1 8 ''Qn'' IMAGING
           (created_state 100 2 1 7 ''Qm'' DIAGNOSIS reg_init)))"
  have run: "run_calls reg_init ?cs = ([0, 1, 2], ?s)" by (rule ex_three_records)
  have len: "length ?cs < 2 ^ 256 - 1" by simp
  have i: "isVerifiedDoctor ex_identity 2" "isPatient ex_identity 1"
    "\<not> isVerifiedDoctor ex_identity 1" "\<not> isPatient ex_identity 4"
    by (simp_all add: ex_isPatient ex_isVerifiedDoctor)
  note t = createRecord_sequence [where idn = ex_identity and s = ?s and h = 6
      and cid = "''Qp''" and t = FOLLOWUP and now = 103 and cs = ?cs and ids = "[0, 1, 2]"]
  have "\<exists>r s'. createRecord ex_identity 103 2 1 6 ''Qp'' FOLLOWUP ?s = (Inr r, s')"
    using t [where c = 2 and p = 1, THEN conjunct1] run len i by blast
  then obtain r s' where
    c: "createRecord ex_identity 103 2 1 6 ''Qp'' FOLLOWUP ?s = (Inr r, s')"
    by blast
  from t [where c = 2 and p = 1 and r = r and s' = s',
      THEN conjunct2, THEN conjunct2, THEN conjunct2, THEN conjunct1] c
  have f: "r = 3" "patientRecords s' 1 = [0, 1, 2, 3]" "recordCount s' = 4"
    by (simp_all add: ex_three_state)
  have n: "createRecord ex_identity 103 1 1 6 ''Qp'' FOLLOWUP ?s
     = (Inl (Revert ''Only verified doctors can create records''), ?s)"
    using t [where c = 1 and p = 1, THEN conjunct2, THEN conjunct1] i by blast
  have m: "createRecord ex_identity 103 2 4 6 ''Qp'' FOLLOWUP ?s
     = (Inl (Revert ''Patient not registered''), ?s)"
    using t [where c = 2 and p = 4, THEN conjunct2, THEN conjunct2, THEN conjunct1] i
    by blast
  have u: "unat (recordCount ?s) = 3"
    using t [where c = 2 and p = 1,
      THEN conjunct2, THEN conjunct2, THEN conjunct2, THEN conjunct2, rule_format, OF run,
      THEN conjunct2, THEN conjunct2]
    by simp
  show ?thesis
    using run len i c f n m u by simp
qed

text \<open>
  Claim C7. \<open>toggleVisibility\<close> fails with ``Record not found'' for an id that is not
  allocated and with ``Only patient can toggle visibility'' unless the caller is the
  record's patient. A successful call negates the visible flag of that record and changes
  nothing else; from visible it yields not visible, and a second call gives the first
  state back.
\<close>

theorem toggleVisibility_flip:
  "(\<not> existsR (records s r) \<longrightarrow>
      toggleVisibility c r s = (Inl (Revert ''Record not found''), s)) \<and>
   (existsR (records s r) \<and> patient (records s r) \<noteq> c \<longrightarrow>
      toggleVisibility c r s = (Inl (Revert ''Only patient can toggle visibility''), s)) \<and>
   (existsR (records s r) \<and> patient (records s r) = c \<longrightarrow>
      (\<exists>s'. toggleVisibility c r s = (Inr (), s') \<and>
         records s' r = (records s r)\<lparr>isVisible := \<not> isVisible (records s r)\<rparr> \<and>
         (\<forall>r'. r' \<noteq> r \<longrightarrow> records s' r' = records s r') \<and>
         recordCount s' = recordCount s \<and>
         patientRecords s' = patientRecords s \<and>
         doctorRecords s' = doctorRecords s \<and>
         (isVisible (records s r) \<longrightarrow> \<not> isVisible (records s' r)) \<and>
         toggleVisibility c r s' = (Inr (), s)))"
proof (intro conjI impI)
  assume "\<not> existsR (records s r)"
  then show "toggleVisibility c r s = (Inl (Revert ''Record not found''), s)"
    by (simp add: toggleVisibility_def transact_def toggleVisibility_body_def)
next
  assume "existsR (records s r) \<and> patient (records s r) \<noteq> c"
  then show "toggleVisibility c r s = (Inl (Revert ''Only patient can toggle visibility''), s)"
    by (simp add: toggleVisibility_def transact_def toggleVisibility_body_def)
next
  assume a: "existsR (records s r) \<and> patient (records s r) = c"
  let ?s' = "toggled_state r s"
  have 1: "toggleVisibility c r s = (Inr (), ?s')"
    using a by (simp add: toggleVisibility_Inr)
  have "existsR (records ?s' r) \<and> patient (records ?s' r) = c"
    using a by (simp add: toggled_state_def)
  then have 2: "toggleVisibility c r ?s' = (Inr (), s)"
    by (simp add: toggleVisibility_Inr toggled_twice)
  show "\<exists>s'. toggleVisibility c r s = (Inr (), s') \<and>
         records s' r = (records s r)\<lparr>isVisible := \<not> isVisible (records s r)\<rparr> \<and>
         (\<forall>r'. r' \<noteq> r \<longrightarrow> records s' r' = records s r') \<and>
         recordCount s' = recordCount s \<and>
         patientRecords s' = patientRecords s \<and>
         doctorRecords s' = doctorRecords s \<and>
         (isVisible (records s r) \<longrightarrow> \<not> isVisible (records s' r)) \<and>
         toggleVisibility c r s' = (Inr (), s)"
    using 1 2 by (intro exI [of _ ?s']) (simp add: toggled_state_def)
qed

theorem toggleVisibility_flip_witness:
  "existsR (records (created_state 100 2 1 7 ''Qm'' DIAGNOSIS reg_init) 0) \<and>
   patient (records (created_state 100 2 1 7 ''Qm'' DIAGNOSIS reg_init) 0) = 1 \<and>
   isVisible (records (created_state 100 2 1 7 ''Qm'' DIAGNOSIS reg_init) 0) \<and>
   fst (toggleVisibility 1 0 (created_state 100 2 1 7 ''Qm'' DIAGNOSIS reg_init)) = Inr () \<and>
   \<not> isVisible (records
       (snd (toggleVisibility 1 0 (created_state 100 2 1 7 ''Qm'' DIAGNOSIS reg_init))) 0) \<and>
   toggleVisibility 1 0
       (snd (toggleVisibility 1 0 (created_state 100 2 1 7 ''Qm'' DIAGNOSIS reg_init)))
     = (Inr (), created_state 100 2 1 7 ''Qm'' DIAGNOSIS reg_init) \<and>
   toggleVisibility 2 0 (created_state 100 2 1 7 ''Qm'' DIAGNOSIS reg_init)
     = (Inl (Revert ''Only patient can toggle visibility''),
        created_state 100 2 1 7 ''Qm'' DIAGNOSIS reg_init) \<and>
   \<not> existsR (records (created_state 100 2 1 7 ''Qm'' DIAGNOSIS reg_init) 5) \<and>
   toggleVisibility 1 5 (created_state 100 2 1 7 ''Qm'' DIAGNOSIS reg_init)
     = (Inl (Revert ''Record not found''), created_state 100 2 1 7 ''Qm'' DIAGNOSIS reg_init)"
proof -
  let ?s = "created_state 100 2 1 7 ''Qm'' DIAGNOSIS reg_init"
  have a: "existsR (records ?s 0)" "patient (records ?s 0) = 1" "isVisible (records ?s 0)"
    "patient (records ?s 0) \<noteq> 2"
    by (simp_all add: ex_created_record)
  have b: "\<not> existsR (records ?s 5)"
    by (simp add: created_state_def reg_init_def zero_record_def)
  from toggleVisibility_flip [of ?s 0 1, THEN conjunct2, THEN conjunct2] a
  obtain s' where "toggleVisibility 1 0 ?s = (Inr (), s')" "\<not> isVisible (records s' 0)"
    "toggleVisibility 1 0 s' = (Inr (), ?s)"
    by auto
  moreover have "toggleVisibility 2 0 ?s
     = (Inl (Revert ''Only patient can toggle visibility''), ?s)"
    using toggleVisibility_flip [of ?s 0 2, THEN conjunct2, THEN conjunct1] a by simp
  moreover have "toggleVisibility 1 5 ?s = (Inl (Revert ''Record not found''), ?s)"
    using toggleVisibility_flip [of ?s 5 1, THEN conjunct1] b by simp
  ultimately show ?thesis using a b by simp
qed

text \<open>
  Claim C4. \<open>getRecord\<close> fails with ``Record not found'' for an id that is not
  allocated, fails with ``Access denied'' unless the caller is the record's patient, its
  author, or the record is visible, and otherwise returns the stored fields. The function
  reads the registry only: whatever the access-control state \<open>a\<close>, a caller with an active
  grant from the record's patient who is neither author nor patient is denied while the
  record is not visible.
\<close>

theorem getRecord_access:
  "(\<not> existsR (records s r) \<longrightarrow> getRecord s c r = Inl (Revert ''Record not found'')) \<and>
   (existsR (records s r) \<and> patient (records s r) \<noteq> c \<and> doctor (records s r) \<noteq> c \<and>
    \<not> isVisible (records s r) \<longrightarrow> getRecord s c r = Inl (Revert ''Access denied'')) \<and>
   (existsR (records s r) \<and>
    (patient (records s r) = c \<or> doctor (records s r) = c \<or> isVisible (records s r)) \<longrightarrow>
      getRecord s c r =
        Inr (recordHash (records s r), ipfsCid (records s r), patient (records s r),
             doctor (records s r), recordType (records s r), isVisible (records s r),
             createdAt (records s r))) \<and>
   (existsR (records s r) \<and> hasAccess a now (patient (records s r)) c \<and>
    patient (records s r) \<noteq> c \<and> doctor (records s r) \<noteq> c \<and> \<not> isVisible (records s r)
      \<longrightarrow> getRecord s c r = Inl (Revert ''Access denied''))"
  by (auto simp: getRecord_def Let_def)

theorem getRecord_access_witness:
  "existsR (records (toggled_state 0 (created_state 100 2 1 7 ''Qm'' DIAGNOSIS reg_init)) 0) \<and>
   hasAccess (granted_state 100 1 3 0 ac_init) 200
     (patient (records (toggled_state 0 (created_state 100 2 1 7 ''Qm'' DIAGNOSIS reg_init)) 0)) 3 \<and>
   getRecord (toggled_state 0 (created_state 100 2 1 7 ''Qm'' DIAGNOSIS reg_init)) 3 0
     = Inl (Revert ''Access denied'') \<and>
   getRecord (toggled_state 0 (created_state 100 2 1 7 ''Qm'' DIAGNOSIS reg_init)) 2 0
     = Inr (7, ''Qm'', 1, 2, DIAGNOSIS, False, 100) \<and>
   getRecord (toggled_state 0 (created_state 100 2 1 7 ''Qm'' DIAGNOSIS reg_init)) 3 1
     = Inl (Revert ''Record not found'')"
proof -
  let ?s = "toggled_state 0 (created_state 100 2 1 7 ''Qm'' DIAGNOSIS reg_init)"
  have rec: "records ?s 0 =
     \<lparr>recordHash = 7, ipfsCid = ''Qm'', patient = 1, doctor = 2, recordType = DIAGNOSIS,
      isVisible = False, createdAt = 100, existsR = True\<rparr>"
    by (simp add: toggled_state_def ex_created_record)
  have nex: "\<not> existsR (records ?s 1)"
    by (simp add: toggled_state_def created_state_def reg_init_def zero_record_def)
  have acc: "hasAccess (granted_state 100 1 3 0 ac_init) 200 1 3"
    by (simp add: hasAccess_iff granted_state_def)
  show ?thesis
    using rec nex acc
      getRecord_access [of ?s 0 3 "granted_state 100 1 3 0 ac_init" 200]
      getRecord_access [of ?s 0 2 "granted_state 100 1 3 0 ac_init" 200]
      getRecord_access [of ?s 1 3 "granted_state 100 1 3 0 ac_init" 200]
    by simp
qed

text \<open>
  Claim C6. When a call to \<open>createRecord\<close>, \<open>toggleVisibility\<close>, \<open>grantAccess\<close> or
  \<open>revokeAccess\<close> fails, with whatever error, its body had written nothing when it
  stopped: every check comes before the first write, so the storage after the failed call is
  the storage before it. For \<open>createRecord\<close> the registry is taken in a state that a run of
  fewer than \<open>2^256 - 1\<close> calls reaches from deployment: there the two
  \<^verbatim>\<open>require\<close>s are its only failures.
\<close>

theorem failed_call_changes_nothing:
  "(run_calls reg_init cs = (ids, s) \<and> length cs < 2 ^ 256 - 1 \<and>
    fst (createRecord idn now c p h cid t s) = Inl e \<longrightarrow>
      snd (createRecord_body idn now c p h cid t s) = s \<and>
      createRecord idn now c p h cid t s = (Inl e, s)) \<and>
   (fst (toggleVisibility c r s) = Inl e \<longrightarrow>
      snd (toggleVisibility_body c r s) = s \<and> toggleVisibility c r s = (Inl e, s)) \<and>
   (fst (grantAccess idn now c d n a) = Inl e \<longrightarrow>
      snd (grantAccess_body idn now c d n a) = a \<and> grantAccess idn now c d n a = (Inl e, a)) \<and>
   (fst (revokeAccess idn c d a) = Inl e \<longrightarrow>
      snd (revokeAccess_body idn c d a) = a \<and> revokeAccess idn c d a = (Inl e, a))"
proof (intro conjI impI)
  assume h: "run_calls reg_init cs = (ids, s) \<and> length cs < 2 ^ 256 - 1 \<and>
    fst (createRecord idn now c p h cid t s) = Inl e"
  then have ne: "recordCount s \<noteq> - 1" using run_calls_below_max [of cs ids s] by blast
  from h have "fst (createRecord_body idn now c p h cid t s) = Inl e"
    by (simp add: createRecord_def transact_fst)
  with ne show "snd (createRecord_body idn now c p h cid t s) = s"
    by (rule createRecord_body_Inl)
  from h show "createRecord idn now c p h cid t s = (Inl e, s)"
    using createRecord_Inl [of idn now c p h cid t s e]
    by (cases "createRecord idn now c p h cid t s") simp
next
  assume h: "fst (toggleVisibility c r s) = Inl e"
  then have "fst (toggleVisibility_body c r s) = Inl e"
    by (simp add: toggleVisibility_def transact_fst)
  then show "snd (toggleVisibility_body c r s) = s" by (rule toggleVisibility_body_Inl)
  from h show "toggleVisibility c r s = (Inl e, s)"
    using transact_Inl_state [of "toggleVisibility_body c r" s e]
    by (cases "toggleVisibility c r s") (simp add: toggleVisibility_def)
next
  assume h: "fst (grantAccess idn now c d n a) = Inl e"
  then have "fst (grantAccess_body idn now c d n a) = Inl e"
    by (simp add: grantAccess_def transact_fst)
  then show "snd (grantAccess_body idn now c d n a) = a" by (rule grantAccess_body_Inl)
  from h show "grantAccess idn now c d n a = (Inl e, a)"
    using transact_Inl_state [of "grantAccess_body idn now c d n" a e]
    by (cases "grantAccess idn now c d n a") (simp add: grantAccess_def)
next
  assume h: "fst (revokeAccess idn c d a) = Inl e"
  then have "fst (revokeAccess_body idn c d a) = Inl e"
    by (simp add: revokeAccess_def transact_fst)
  then show "snd (revokeAccess_body idn c d a) = a" by (rule revokeAccess_body_Inl)
  from h show "revokeAccess idn c d a = (Inl e, a)"
    using transact_Inl_state [of "revokeAccess_body idn c d" a e]
    by (cases "revokeAccess idn c d a") (simp add: revokeAccess_def)
qed

theorem failed_call_changes_nothing_witness:
  "run_calls reg_init
     [CreateRecord ex_identity 100 2 1 7 ''Qm'' DIAGNOSIS,
      CreateRecord ex_identity 101 2 1 8 ''Qn'' IMAGING,
      CreateRecord ex_identity 102 3 1 9 ''Qo'' LAB_REPORT,
      ToggleVisibility 1 1]
   = ([0, 1, 2],
      toggled_state 1 (created_state 102 3 1 9 ''Qo'' LAB_REPORT
        (created_state 101 2 1 8 ''Qn'' IMAGING
           (created_state 100 2 1 7 ''Qm'' DIAGNOSIS reg_init)))) \<and>
   length [CreateRecord ex_identity 100 2 1 7 ''Qm'' DIAGNOSIS,
      CreateRecord ex_identity 101 2 1 8 ''Qn'' IMAGING,
      CreateRecord ex_identity 102 3 1 9 ''Qo'' LAB_REPORT,
      ToggleVisibility 1 1] < 2 ^ 256 - 1 \<and>
   fst (createRecord ex_identity 103 1 1 6 ''Qp'' FOLLOWUP
     (toggled_state 1 (created_state 102 3 1 9 ''Qo'' LAB_REPORT
        (created_state 101 2 1 8 ''Qn'' IMAGING
           (created_state 100 2 1 7 ''Qm'' DIAGNOSIS reg_init)))))
     = Inl (Revert ''Only verified doctors can create records'') \<and>
   snd (createRecord_body ex_identity 103 1 1 6 ''Qp'' FOLLOWUP
     (toggled_state 1 (created_state 102 3 1 9 ''Qo'' LAB_REPORT
        (created_state 101 2 1 8 ''Qn'' IMAGING
           (created_state 100 2 1 7 ''Qm'' DIAGNOSIS reg_init)))))
     = toggled_state 1 (created_state 102 3 1 9 ''Qo'' LAB_REPORT
        (created_state 101 2 1 8 ''Qn'' IMAGING
           (created_state 100 2 1 7 ''Qm'' DIAGNOSIS reg_init))) \<and>
   fst (toggleVisibility 2 0
     (toggled_state 1 (created_state 102 3 1 9 ''Qo'' LAB_REPORT
        (created_state 101 2 1 8 ''Qn'' IMAGING
           (created_state 100 2 1 7 ''Qm'' DIAGNOSIS reg_init)))))
     = Inl (Revert ''Only patient can toggle visibility'') \<and>
   snd (toggleVisibility_body 2 0
     (toggled_state 1 (created_state 102 3 1 9 ''Qo'' LAB_REPORT
        (created_state 101 2 1 8 ''Qn'' IMAGING
           (created_state 100 2 1 7 ''Qm'' DIAGNOSIS reg_init)))))
     = toggled_state 1 (created_state 102 3 1 9 ''Qo'' LAB_REPORT
        (created_state 101 2 1 8 ''Qn'' IMAGING
           (created_state 100 2 1 7 ''Qm'' DIAGNOSIS reg_init))) \<and>
   fst (grantAccess ex_identity 1700000000 1 2 (- 1) (granted_state 100 1 2 3600 ac_init))
     = Inl PanicOverflow \<and>
   snd (grantAccess_body ex_identity 1700000000 1 2 (- 1) (granted_state 100 1 2 3600 ac_init))
     = granted_state 100 1 2 3600 ac_init \<and>
   grantAccess ex_identity 1700000000 1 2 (- 1) (granted_state 100 1 2 3600 ac_init)
     = (Inl PanicOverflow, granted_state 100 1 2 3600 ac_init) \<and>
   fst (revokeAccess ex_identity 1 3 (granted_state 100 1 2 3600 ac_init))
     = Inl (Revert ''No access grant found'') \<and>
   snd (revokeAccess_body ex_identity 1 3 (granted_state 100 1 2 3600 ac_init))
     = granted_state 100 1 2 3600 ac_init \<and>
   revokeAccess ex_identity 1 3 (granted_state 100 1 2 3600 ac_init)
     = (Inl (Revert ''No access grant found''), granted_state 100 1 2 3600 ac_init)"
proof -
  let ?cs = "[CreateRecord ex_identity 100 2 1 7 ''Qm'' DIAGNOSIS,
      CreateRecord ex_identity 101 2 1 8 ''Qn'' IMAGING,
      CreateRecord ex_identity 102 3 1 9 ''Qo'' LAB_REPORT,
      ToggleVisibility 1 1]"
  let ?s = "toggled_state 1 (created_state 102 3 1 9 ''Qo'' LAB_REPORT
        (created_state 101 2 1 8 ''Qn'' IMAGING
           (created_state 100 2 1 7 ''Qm'' DIAGNOSIS reg_init)))"
  let ?a = "granted_state 100 1 2 3600 ac_init"
  have run: "run_calls reg_init ?cs = ([0, 1, 2], ?s)" by (rule ex_three_records)
  have len: "length ?cs < 2 ^ 256 - 1" by simp
  have 1: "fst (createRecord ex_identity 103 1 1 6 ''Qp'' FOLLOWUP ?s)
     = Inl (Revert ''Only verified doctors can create records'')"
    by (simp add: createRecord_not_doctor ex_isVerifiedDoctor)
  have 2: "fst (toggleVisibility 2 0 ?s) = Inl (Revert ''Only patient can toggle visibility'')"
    by (simp add: toggleVisibility_def transact_fst toggleVisibility_body_def ex_three_state)
  have 3: "fst (grantAccess ex_identity 1700000000 1 2 (- 1) ?a) = Inl PanicOverflow"
    by (simp add: grantAccess_def transact_fst grantAccess_body_overflow ex_isPatient
        ex_isVerifiedDoctor unat_max_uint256 word_greater_zero_iff)
  have 4: "fst (revokeAccess ex_identity 1 3 ?a) = Inl (Revert ''No access grant found'')"
    by (simp add: revokeAccess_not_found ex_isPatient granted_state_def ac_init_def
        zero_grant_def)
  note t = failed_call_changes_nothing [where idn = ex_identity and s = ?s and a = ?a
      and cs = ?cs and ids = "[0, 1, 2]" and h = 6 and cid = "''Qp''" and t = FOLLOWUP
      and p = 1 and r = 0]
  have c1: "snd (createRecord_body ex_identity 103 1 1 6 ''Qp'' FOLLOWUP ?s) = ?s"
    using t [where now = 103 and c = 1, THEN conjunct1] run len 1 by blast
  have c2: "snd (toggleVisibility_body 2 0 ?s) = ?s"
    using t [where c = 2, THEN conjunct2, THEN conjunct1] 2 by blast
  have c3: "snd (grantAccess_body ex_identity 1700000000 1 2 (- 1) ?a) = ?a
      \<and> grantAccess ex_identity 1700000000 1 2 (- 1) ?a = (Inl PanicOverflow, ?a)"
    using t [where now = 1700000000 and c = 1 and d = 2 and n = "- 1",
        THEN conjunct2, THEN conjunct2, THEN conjunct1] 3 by blast
  have c4: "snd (revokeAccess_body ex_identity 1 3 ?a) = ?a
      \<and> revokeAccess ex_identity 1 3 ?a = (Inl (Revert ''No access grant found''), ?a)"
    using t [where c = 1 and d = 3, THEN conjunct2, THEN conjunct2, THEN conjunct2] 4
    by blast
  show ?thesis using run len 1 2 3 4 c1 c2 c3 c4 by simp
qed

lemma countVisible_filter:
  "unat acc + length (filter (\<lambda>r. isVisible (recs r)) rs) < 2 ^ 256 \<Longrightarrow>
   \<exists>c. countVisible recs rs acc = Inr c \<and>
       unat c = unat acc + length (filter (\<lambda>r. isVisible (recs r)) rs)"
proof (induction rs arbitrary: acc)
  case Nil
  then show ?case by simp
next
  case (Cons r rs)
  show ?case
  proof (cases "isVisible (recs r)")
    case True
    with Cons.prems have b:
      "Suc (unat acc) + length (filter (\<lambda>r. isVisible (recs r)) rs) < 2 ^ 256"
      by simp
    then have "unat acc + unat (1 :: uint256) < 2 ^ 256" by simp
    then have i: "checked_inc acc = Inr (acc + 1)"
      by (simp add: checked_inc_def checked_add_def)
    have u: "unat (acc + 1) = Suc (unat acc)" using i by (rule checked_inc_unat)
    from Cons.IH [of "acc + 1"] b u True i show ?thesis by auto
  next
    case False
    with Cons.prems Cons.IH [of acc] show ?thesis by auto
  qed
qed

lemma fillVisible_filter:
  "unat index + length (filter (\<lambda>r. isVisible (recs r)) rs) = length out \<Longrightarrow>
   length out < 2 ^ 256 \<Longrightarrow>
   fillVisible recs rs out index
     = Inr (take (unat index) out @ filter (\<lambda>r. isVisible (recs r)) rs)"
proof (induction rs arbitrary: out index)
  case Nil
  then show ?case by simp
next
  case (Cons r rs)
  show ?case
  proof (cases "isVisible (recs r)")
    case True
    with Cons.prems have lt: "unat index < length out" by simp
    with Cons.prems have "unat index + unat (1 :: uint256) < 2 ^ 256" by simp
    then have i: "checked_inc index = Inr (index + 1)"
      by (simp add: checked_inc_def checked_add_def)
    have u: "unat (index + 1) = Suc (unat index)" using i by (rule checked_inc_unat)
    have "fillVisible recs rs (out[unat index := r]) (index + 1)
        = Inr (take (unat (index + 1)) (out[unat index := r])
               @ filter (\<lambda>r. isVisible (recs r)) rs)"
      using Cons.prems True u by (intro Cons.IH) simp_all
    also have "take (unat (index + 1)) (out[unat index := r]) = take (unat index) out @ [r]"
      using lt by (simp add: u take_Suc_conv_app_nth)
    finally show ?thesis using True lt i by simp
  next
    case False
    with Cons.prems Cons.IH [of index out] show ?thesis by simp
  qed
qed

text \<open>
  Claim C9. \<open>getVisiblePatientRecords\<close> returns the ids of the patient's full id list
  (\<open>getPatientRecordIds\<close>) whose record is visible, in the order of that list. It returns
  a value only and writes nothing. The hypothesis is what a Solidity array is: its
  length is a \<^verbatim>\<open>uint256\<close>.
\<close>

theorem getVisiblePatientRecords_filter:
  "length (patientRecords s p) < 2 ^ 256 \<Longrightarrow>
   getVisiblePatientRecords s p
     = Inr (filter (\<lambda>r. isVisible (records s r)) (getPatientRecordIds s p))"
proof -
  assume len: "length (patientRecords s p) < 2 ^ 256"
  let ?vis = "filter (\<lambda>r. isVisible (records s r)) (patientRecords s p)"
  have le: "length ?vis \<le> length (patientRecords s p)" by simp
  have lt: "length ?vis < 2 ^ 256" using le len by (rule le_less_trans)
  then have "unat (0 :: uint256) + length ?vis < 2 ^ 256" by simp
  from countVisible_filter [where recs = "records s" and rs = "patientRecords s p"
      and acc = 0, OF this]
  obtain c where c: "countVisible (records s) (patientRecords s p) 0 = Inr c"
    and u: "unat c = length ?vis" by auto
  have "fillVisible (records s) (patientRecords s p) (replicate (unat c) 0) 0
      = Inr (take (unat (0 :: uint256)) (replicate (unat c) 0) @ ?vis)"
    using u lt by (intro fillVisible_filter) simp_all
  then show ?thesis
    using c by (simp add: getVisiblePatientRecords_def getPatientRecordIds_def)
qed

theorem getVisiblePatientRecords_filter_witness:
  "length (patientRecords
     (toggled_state 1 (created_state 102 3 1 9 ''Qo'' LAB_REPORT
        (created_state 101 2 1 8 ''Qn'' IMAGING
           (created_state 100 2 1 7 ''Qm'' DIAGNOSIS reg_init)))) 1) < 2 ^ 256 \<and>
   getPatientRecordIds
     (toggled_state 1 (created_state 102 3 1 9 ''Qo'' LAB_REPORT
        (created_state 101 2 1 8 ''Qn'' IMAGING
           (created_state 100 2 1 7 ''Qm'' DIAGNOSIS reg_init)))) 1 = [0, 1, 2] \<and>
   getVisiblePatientRecords
     (toggled_state 1 (created_state 102 3 1 9 ''Qo'' LAB_REPORT
        (created_state 101 2 1 8 ''Qn'' IMAGING
           (created_state 100 2 1 7 ''Qm'' DIAGNOSIS reg_init)))) 1 = Inr [0, 2]"
proof -
  let ?s = "toggled_state 1 (created_state 102 3 1 9 ''Qo'' LAB_REPORT
        (created_state 101 2 1 8 ''Qn'' IMAGING
           (created_state 100 2 1 7 ''Qm'' DIAGNOSIS reg_init)))"
  have pr: "patientRecords ?s 1 = [0, 1, 2]"
    by (simp add: toggled_state_def created_state_def reg_init_def)
  have vis: "isVisible (records ?s 0)" "\<not> isVisible (records ?s 1)" "isVisible (records ?s 2)"
    by (simp_all add: toggled_state_def created_state_def reg_init_def)
  have len: "length (patientRecords ?s 1) < 2 ^ 256" by (simp add: pr)
  show ?thesis
    using getVisiblePatientRecords_filter [OF len] pr vis len
    by (simp add: getPatientRecordIds_def)
qed

end
